theory Spec2Isabelle
  imports Complex_Main "HOL-Library.Char_ord" "HOL-Library.List_Lexorder"
begin

section \<open>JavaScript values\<close>

text \<open>
  The program is a React front end over a mock API class (\<open>MockAPI\<close>) that keeps three
  IndexedDB object stores. Records are plain JavaScript objects, so they are modelled as
  property lists in insertion order, not as typed records: the updates of the API are
  object spreads, and a spread can add or replace any property.

  Numbers are modelled as integers: every number the modelled paths compute with
  (page, pageSize, array lengths, order, millisecond timestamps) is an integer, and the
  one quotient, \<open>Math.ceil(total / pageSize)\<close>, is taken exactly. The values of
  \<open>Math.random()\<close> are reals in \<open>[0, 1)\<close>, passed in explicitly. Strings are lists of
  8-bit characters, read as the code units below 256.
\<close>

datatype jsval =
    JUndefined
  | JNull
  | JBool bool
  | JNum int
  | JStr string
  | JDate int
  | JArr "jsval list"
  | JObj "(string \<times> jsval) list"

type_synonym obj = "(string \<times> jsval) list"

datatype error = NetworkError | TypeError | DataError | ConstraintError

text \<open>\<open>o.p\<close>: the value of an own property, \<open>undefined\<close> when the object has none.\<close>

definition get_prop :: "obj \<Rightarrow> string \<Rightarrow> jsval" where
  "get_prop ob p = (case map_of ob p of None \<Rightarrow> JUndefined | Some v \<Rightarrow> v)"

text \<open>\<open>o[p] = v\<close> on an object literal under construction: an existing property keeps
  its position and takes the new value, a new one is appended.\<close>

fun set_prop :: "string \<Rightarrow> jsval \<Rightarrow> obj \<Rightarrow> obj" where
  "set_prop p v [] = [(p, v)]"
| "set_prop p v ((q, w) # ob) = (if p = q then (p, v) # ob else (q, w) # set_prop p v ob)"

text \<open>\<open>{ ...target, ...src }\<close>: the properties of \<open>src\<close> are copied in order onto the
  object built so far.\<close>

definition spread :: "obj \<Rightarrow> obj \<Rightarrow> obj" where
  "spread target src = fold (\<lambda>(p, v). set_prop p v) src target"

text \<open>Spreading \<open>undefined\<close> copies nothing.\<close>

definition spread_opt :: "obj \<Rightarrow> obj option \<Rightarrow> obj" where
  "spread_opt target src = (case src of None \<Rightarrow> target | Some s \<Rightarrow> spread target s)"

text \<open>Strict equality \<open>===\<close>. Primitives compare by value. Dates, arrays and objects compare
  by reference, which this model does not track: two such operands are taken to be
  different references.\<close>

fun strict_eq :: "jsval \<Rightarrow> jsval \<Rightarrow> bool" where
  "strict_eq JUndefined JUndefined = True"
| "strict_eq JNull JNull = True"
| "strict_eq (JBool a) (JBool b) = (a = b)"
| "strict_eq (JNum a) (JNum b) = (a = b)"
| "strict_eq (JStr a) (JStr b) = (a = b)"
| "strict_eq _ _ = False"

section \<open>Strings\<close>

definition toLowerCase_char :: "char \<Rightarrow> char" where
  "toLowerCase_char c =
     (let n = (of_char c :: nat) in
      if (65 \<le> n \<and> n \<le> 90) \<or> (192 \<le> n \<and> n \<le> 222 \<and> n \<noteq> 215)
      then char_of (n + 32) else c)"

definition toLowerCase :: "string \<Rightarrow> string" where
  "toLowerCase s = map toLowerCase_char s"

definition startsWith :: "string \<Rightarrow> string \<Rightarrow> bool" where
  "startsWith s t = (take (length t) s = t)"

text \<open>\<open>s.includes(t)\<close>: \<open>t\<close> occurs in \<open>s\<close> as a contiguous substring.\<close>

fun str_includes :: "string \<Rightarrow> string \<Rightarrow> bool" where
  "str_includes [] t = (t = [])"
| "str_includes (c # s) t = (startsWith (c # s) t \<or> str_includes s t)"

definition isSpace :: "char \<Rightarrow> bool" where
  "isSpace c = ((of_char c :: nat) \<in> {9, 10, 11, 12, 13, 32, 160})"

definition trim :: "string \<Rightarrow> string" where
  "trim s = rev (dropWhile isSpace (rev (dropWhile isSpace s)))"

text \<open>\<open>s.split(',')\<close>.\<close>

fun split_comma :: "string \<Rightarrow> string list" where
  "split_comma [] = [[]]"
| "split_comma (c # s) =
     (if c = CHR '','' then [] # split_comma s
      else (case split_comma s of [] \<Rightarrow> [[c]] | w # ws \<Rightarrow> (c # w) # ws))"

text \<open>\<open>s.replace(/\\s+/g, '-')\<close>: every maximal run of white space becomes one dash. The
  flag says that the scan is inside a run whose dash is already written.\<close>

fun replace_spaces_from :: "bool \<Rightarrow> string \<Rightarrow> string" where
  "replace_spaces_from in_run [] = []"
| "replace_spaces_from in_run (c # s) =
     (if isSpace c
      then (if in_run then replace_spaces_from True s else CHR ''-'' # replace_spaces_from True s)
      else c # replace_spaces_from False s)"

definition replace_spaces :: "string \<Rightarrow> string" where
  "replace_spaces s = replace_spaces_from False s"

text \<open>The decimal digits of a number, as a template literal prints an integer. A digit
  is below 10 wherever \<open>digit_char\<close> is applied.\<close>

definition digit_char :: "nat \<Rightarrow> char" where
  "digit_char d = ''0123456789'' ! d"

fun string_of_nat :: "nat \<Rightarrow> string" where
  "string_of_nat n =
     (if n < 10 then [digit_char n] else string_of_nat (n div 10) @ [digit_char (n mod 10)])"

definition string_of_int :: "int \<Rightarrow> string" where
  "string_of_int i = (if i < 0 then CHR ''-'' # string_of_nat (nat (- i)) else string_of_nat (nat i))"

section \<open>The IndexedDB object stores\<close>

text \<open>
  A key is a number, a date, a string or an array of keys; keys of different kinds are
  ordered number < date < string < array, arrays element by element. An object store
  with a key path holds its records in ascending key order, which is the order
  \<open>getAll\<close> returns them in.
\<close>

datatype idbkey = KNum int | KDate int | KStr string | KArr "idbkey list"

fun to_key :: "jsval \<Rightarrow> idbkey option" where
  "to_key (JNum n) = Some (KNum n)"
| "to_key (JDate d) = Some (KDate d)"
| "to_key (JStr s) = Some (KStr s)"
| "to_key (JArr xs) = map_option KArr (those (map to_key xs))"
| "to_key _ = None"

fun key_lt :: "idbkey \<Rightarrow> idbkey \<Rightarrow> bool" and keys_lt :: "idbkey list \<Rightarrow> idbkey list \<Rightarrow> bool" where
  "key_lt (KNum a) (KNum b) = (a < b)"
| "key_lt (KNum a) _ = True"
| "key_lt (KDate a) (KNum b) = False"
| "key_lt (KDate a) (KDate b) = (a < b)"
| "key_lt (KDate a) _ = True"
| "key_lt (KStr a) (KNum b) = False"
| "key_lt (KStr a) (KDate b) = False"
| "key_lt (KStr a) (KStr b) = (a < b)"
| "key_lt (KStr a) (KArr b) = True"
| "key_lt (KArr a) (KArr b) = keys_lt a b"
| "key_lt (KArr a) _ = False"
| "keys_lt [] [] = False"
| "keys_lt [] (y # ys) = True"
| "keys_lt (x # xs) [] = False"
| "keys_lt (x # xs) (y # ys) = (key_lt x y \<or> (x = y \<and> keys_lt xs ys))"

type_synonym store = "(idbkey \<times> obj) list"

text \<open>The position of a record in the store: it replaces the record with an equal key,
  and otherwise goes before the first record with a greater key.\<close>

fun store_insert :: "idbkey \<Rightarrow> obj \<Rightarrow> store \<Rightarrow> store" where
  "store_insert k r [] = [(k, r)]"
| "store_insert k r ((k', r') # s) =
     (if k = k' then (k, r) # s
      else if key_lt k k' then (k, r) # (k', r') # s
      else (k', r') # store_insert k r s)"

text \<open>Evaluating the key path of the store on a value. The stores of this program have
  the key paths \<open>id\<close>, \<open>id\<close> and \<open>jobId\<close>, and no key generator.\<close>

definition extract_key :: "string \<Rightarrow> obj \<Rightarrow> idbkey option" where
  "extract_key keyPath v = (case map_of v keyPath of None \<Rightarrow> None | Some x \<Rightarrow> to_key x)"

text \<open>\<open>store.put(value)\<close> throws \<open>DataError\<close> when the key path yields no valid key.\<close>

definition store_put :: "string \<Rightarrow> store \<Rightarrow> obj \<Rightarrow> error + store" where
  "store_put keyPath s v =
     (case extract_key keyPath v of None \<Rightarrow> Inl DataError
      | Some k \<Rightarrow> Inr (store_insert k v s))"

text \<open>\<open>store.add(value)\<close>: as \<open>put\<close>, but the request fails with \<open>ConstraintError\<close> when
  the key is taken.\<close>

definition store_add :: "string \<Rightarrow> store \<Rightarrow> obj \<Rightarrow> error + store" where
  "store_add keyPath s v =
     (case extract_key keyPath v of None \<Rightarrow> Inl DataError
      | Some k \<Rightarrow> (case map_of s k of Some _ \<Rightarrow> Inl ConstraintError
                  | None \<Rightarrow> Inr (store_insert k v s)))"

text \<open>\<open>store.get(key)\<close> throws \<open>DataError\<close> when the argument is not a valid key, and
  yields \<open>undefined\<close> (here \<open>None\<close>) when no record has the key.\<close>

definition store_get :: "store \<Rightarrow> jsval \<Rightarrow> error + obj option" where
  "store_get s key = (case to_key key of None \<Rightarrow> Inl DataError | Some k \<Rightarrow> Inr (map_of s k))"

definition store_getAll :: "store \<Rightarrow> obj list" where
  "store_getAll s = map snd s"

definition store_count :: "store \<Rightarrow> nat" where
  "store_count s = length s"

record database =
  jobs_store :: store
  candidates_store :: store
  assessments_store :: store

definition empty_db :: database where
  "empty_db = \<lparr>jobs_store = [], candidates_store = [], assessments_store = []\<rparr>"

section \<open>MockAPI\<close>

text \<open>
  \<open>delay()\<close> waits \<open>200 + Math.random() * 1000\<close> milliseconds and then throws
  \<open>Error('Network error')\<close> when a second sample is below \<open>0.05\<close>. The two samples are
  the arguments; the result is the time waited, or the error.
\<close>

definition delay :: "real \<Rightarrow> real \<Rightarrow> error + real" where
  "delay r_wait r_fail = (if r_fail < 5 / 100 then Inl NetworkError else Inr (200 + r_wait * 1000))"


subsection \<open>Queries\<close>

text \<open>
  The parameter object of \<open>getJobs\<close> and \<open>getCandidates\<close>. A field is \<open>None\<close> when the
  property is missing or \<open>undefined\<close>. The callers pass strings for \<open>search\<close>, \<open>status\<close>
  and \<open>stage\<close> and integers for \<open>page\<close>; \<open>getJobs\<close> does not read \<open>stage\<close> and
  \<open>getCandidates\<close> does not read \<open>status\<close>.
\<close>

record params =
  search :: "string option"
  status :: "string option"
  stage :: "string option"
  page :: "int option"
  pageSize :: "int option"

record pagination =
  pg_page :: int
  pg_pageSize :: int
  total :: int
  totalPages :: int

record page_result =
  data :: "obj list"
  pagination :: pagination

text \<open>\<open>parseInt(v) || d\<close> on \<open>undefined\<close> or on an integer below \<open>10^21\<close> in magnitude.
  \<open>parseInt(undefined)\<close> is \<open>NaN\<close>, and both \<open>NaN\<close> and \<open>0\<close> are falsy. \<open>parseInt\<close> prints
  its argument and reads the numeral back: an integer below \<open>10^21\<close> in magnitude is
  printed as its decimal digits, so the result is the integer itself. From \<open>10^21\<close> on a
  number is printed in exponent notation, of which \<open>parseInt\<close> reads the leading digit
  only; such parameters are outside this definition, and the statements about the pages
  of a query bound \<open>page\<close> and \<open>pageSize\<close> accordingly.\<close>

definition parseInt_or :: "int option \<Rightarrow> int \<Rightarrow> int" where
  "parseInt_or v d = (case v of None \<Rightarrow> d | Some n \<Rightarrow> if n = 0 then d else n)"

text \<open>\<open>xs.slice(start, end)\<close>: a negative index counts from the end, and both indices are
  clamped to the array.\<close>

definition js_slice :: "'a list \<Rightarrow> int \<Rightarrow> int \<Rightarrow> 'a list" where
  "js_slice xs start end' =
     (let len = int (length xs);
          k = (if start < 0 then max (len + start) 0 else min start len);
          final = (if end' < 0 then max (len + end') 0 else min end' len)
      in take (nat (final - k)) (drop (nat k) xs))"

text \<open>\<open>xs.filter(f)\<close> with a callback that may throw: the first exception ends the call.\<close>

fun filter_js :: "('a \<Rightarrow> error + bool) \<Rightarrow> 'a list \<Rightarrow> error + 'a list" where
  "filter_js f [] = Inr []"
| "filter_js f (x # xs) =
     (case f x of Inl e \<Rightarrow> Inl e
      | Inr b \<Rightarrow> (case filter_js f xs of Inl e \<Rightarrow> Inl e
                  | Inr ys \<Rightarrow> Inr (if b then x # ys else ys)))"

text \<open>\<open>job.title.toLowerCase().includes(params.search.toLowerCase())\<close>: a title that is
  not a string has no method \<open>toLowerCase\<close>.\<close>

definition job_matches :: "string \<Rightarrow> obj \<Rightarrow> error + bool" where
  "job_matches s job =
     (case get_prop job ''title'' of
        JStr t \<Rightarrow> Inr (str_includes (toLowerCase t) (toLowerCase s))
      | _ \<Rightarrow> Inl TypeError)"

text \<open>\<open>candidate.name.toLowerCase().includes(search) || candidate.email.toLowerCase().includes(search)\<close>,
  with \<open>search\<close> already in lower case; the email is read only when the name does not match.\<close>

definition candidate_matches :: "string \<Rightarrow> obj \<Rightarrow> error + bool" where
  "candidate_matches s candidate =
     (case get_prop candidate ''name'' of
        JStr n \<Rightarrow>
          if str_includes (toLowerCase n) s then Inr True
          else (case get_prop candidate ''email'' of
                  JStr e \<Rightarrow> Inr (str_includes (toLowerCase e) s)
                | _ \<Rightarrow> Inl TypeError)
      | _ \<Rightarrow> Inl TypeError)"

definition paginate :: "obj list \<Rightarrow> params \<Rightarrow> int \<Rightarrow> page_result" where
  "paginate filtered ps default_size =
     (let total = int (length filtered);
          page = parseInt_or (page ps) 1;
          pageSize = parseInt_or (pageSize ps) default_size;
          start = (page - 1) * pageSize;
          end' = start + pageSize
      in \<lparr>data = js_slice filtered start end',
          pagination = \<lparr>pg_page = page, pg_pageSize = pageSize, total = total,
                        totalPages = \<lceil>real_of_int total / real_of_int pageSize\<rceil>\<rparr>\<rparr>)"

definition getJobs :: "real \<Rightarrow> real \<Rightarrow> database \<Rightarrow> params \<Rightarrow> error + page_result" where
  "getJobs r_wait r_fail db ps =
     (case delay r_wait r_fail of
        Inl e \<Rightarrow> Inl e
      | Inr _ \<Rightarrow>
          let jobs = store_getAll (jobs_store db) in
          (case (case search ps of
                   None \<Rightarrow> Inr jobs
                 | Some s \<Rightarrow> if s = [] then Inr jobs else filter_js (job_matches s) jobs) of
             Inl e \<Rightarrow> Inl e
           | Inr filtered \<Rightarrow>
               let filtered' =
                     (case status ps of
                        None \<Rightarrow> filtered
                      | Some st \<Rightarrow>
                          if st = [] then filtered
                          else filter (\<lambda>job. strict_eq (get_prop job ''status'') (JStr st)) filtered)
               in Inr (paginate filtered' ps 10)))"

definition getCandidates :: "real \<Rightarrow> real \<Rightarrow> database \<Rightarrow> params \<Rightarrow> error + page_result" where
  "getCandidates r_wait r_fail db ps =
     (case delay r_wait r_fail of
        Inl e \<Rightarrow> Inl e
      | Inr _ \<Rightarrow>
          let candidates = store_getAll (candidates_store db) in
          (case (case search ps of
                   None \<Rightarrow> Inr candidates
                 | Some s \<Rightarrow>
                     if s = [] then Inr candidates
                     else filter_js (candidate_matches (toLowerCase s)) candidates) of
             Inl e \<Rightarrow> Inl e
           | Inr filtered \<Rightarrow>
               let filtered' =
                     (case stage ps of
                        None \<Rightarrow> filtered
                      | Some st \<Rightarrow>
                          if st = [] then filtered
                          else filter (\<lambda>candidate. strict_eq (get_prop candidate ''stage'') (JStr st)) filtered)
               in Inr (paginate filtered' ps 50)))"

definition getAssessment :: "real \<Rightarrow> real \<Rightarrow> database \<Rightarrow> jsval \<Rightarrow> error + obj option" where
  "getAssessment r_wait r_fail db jobId =
     (case delay r_wait r_fail of
        Inl e \<Rightarrow> Inl e
      | Inr _ \<Rightarrow> store_get (assessments_store db) jobId)"

subsection \<open>Mutations\<close>

text \<open>
  A mutation returns its result together with the database after it. \<open>createJob\<close> reads
  the clock twice, for \<open>Date.now()\<close> in the id and for \<open>new Date()\<close>. It does not wait for
  the \<open>add\<close> request: when the key is taken the request fails after the job was returned,
  and the store keeps the record it had.
\<close>

definition createJob ::
  "real \<Rightarrow> real \<Rightarrow> int \<Rightarrow> int \<Rightarrow> database \<Rightarrow> obj \<Rightarrow> (error + obj) \<times> database" where
  "createJob r_wait r_fail now_id now_created db job =
     (case delay r_wait r_fail of
        Inl e \<Rightarrow> (Inl e, db)
      | Inr _ \<Rightarrow>
          let newJob = set_prop ''createdAt'' (JDate now_created)
                         (set_prop ''id'' (JStr (''job-'' @ string_of_int now_id)) (spread [] job))
          in (case store_add ''id'' (jobs_store db) newJob of
                Inl e \<Rightarrow> (Inr newJob, db)
              | Inr s \<Rightarrow> (Inr newJob, db\<lparr>jobs_store := s\<rparr>)))"

definition updateJob ::
  "real \<Rightarrow> real \<Rightarrow> database \<Rightarrow> jsval \<Rightarrow> obj \<Rightarrow> (error + obj) \<times> database" where
  "updateJob r_wait r_fail db id' updates =
     (case delay r_wait r_fail of
        Inl e \<Rightarrow> (Inl e, db)
      | Inr _ \<Rightarrow>
          (case store_get (jobs_store db) id' of
             Inl e \<Rightarrow> (Inl e, db)
           | Inr job \<Rightarrow>
               let updatedJob = spread (spread_opt [] job) updates
               in (case store_put ''id'' (jobs_store db) updatedJob of
                     Inl e \<Rightarrow> (Inl e, db)
                   | Inr s \<Rightarrow> (Inr updatedJob, db\<lparr>jobs_store := s\<rparr>))))"

definition updateCandidate ::
  "real \<Rightarrow> real \<Rightarrow> database \<Rightarrow> jsval \<Rightarrow> obj \<Rightarrow> (error + obj) \<times> database" where
  "updateCandidate r_wait r_fail db id' updates =
     (case delay r_wait r_fail of
        Inl e \<Rightarrow> (Inl e, db)
      | Inr _ \<Rightarrow>
          (case store_get (candidates_store db) id' of
             Inl e \<Rightarrow> (Inl e, db)
           | Inr candidate \<Rightarrow>
               let updatedCandidate = spread (spread_opt [] candidate) updates
               in (case store_put ''id'' (candidates_store db) updatedCandidate of
                     Inl e \<Rightarrow> (Inl e, db)
                   | Inr s \<Rightarrow> (Inr updatedCandidate, db\<lparr>candidates_store := s\<rparr>))))"

definition updateAssessment ::
  "real \<Rightarrow> real \<Rightarrow> database \<Rightarrow> jsval \<Rightarrow> obj \<Rightarrow> (error + obj) \<times> database" where
  "updateAssessment r_wait r_fail db jobId assessment =
     (case delay r_wait r_fail of
        Inl e \<Rightarrow> (Inl e, db)
      | Inr _ \<Rightarrow>
          let updatedAssessment = set_prop ''jobId'' jobId (spread [] assessment)
          in (case store_put ''jobId'' (assessments_store db) updatedAssessment of
                Inl e \<Rightarrow> (Inl e, db)
              | Inr s \<Rightarrow> (Inr updatedAssessment, db\<lparr>assessments_store := s\<rparr>)))"


subsection \<open>Seeding\<close>


















section \<open>The views\<close>

text \<open>
  The handlers of the React components are asynchronous: each runs until it awaits a
  timer or an API call, and its continuation runs when that settles, while other handlers
  may run in between. A handler is therefore modelled by its segments (\<open>_begin\<close>, the
  part up to the first \<open>await\<close>, and \<open>_settle\<close> or \<open>_finish\<close>, the continuation), and by
  their composition when nothing comes in between. The state is what the handlers read
  and write: the database behind the API, the component's state variables, the messages
  shown with \<open>alert\<close> and the entries written with \<open>console.error\<close>.
\<close>

record browser =
  idb :: database
  alerts :: "string list"
  console_errors :: "(string \<times> error) list"

record jobs_page = browser +
  jobs :: "jsval list"
  loading :: bool
  filters :: params
  pagination_state :: "pagination option"
  showCreateModal :: bool
  draggedJob :: jsval

fun truthy :: "jsval \<Rightarrow> bool" where
  "truthy JUndefined = False"
| "truthy JNull = False"
| "truthy (JBool b) = b"
| "truthy (JNum n) = (n \<noteq> 0)"
| "truthy (JStr s) = (s \<noteq> [])"
| "truthy _ = True"

text \<open>\<open>v.p\<close> on any value, for the property names of this program (none of them is a
  built-in property of a primitive or of an array): reading a property of \<open>undefined\<close> or
  \<open>null\<close> throws.\<close>

fun js_member :: "jsval \<Rightarrow> string \<Rightarrow> error + jsval" where
  "js_member (JObj ob) p = Inr (get_prop ob p)"
| "js_member JUndefined p = Inl TypeError"
| "js_member JNull p = Inl TypeError"
| "js_member _ p = Inr JUndefined"

text \<open>\<open>xs.findIndex(f)\<close> with a callback that may throw; \<open>-1\<close> when no element is found.\<close>

fun findIndex_from :: "int \<Rightarrow> ('a \<Rightarrow> error + bool) \<Rightarrow> 'a list \<Rightarrow> error + int" where
  "findIndex_from i f [] = Inr (- 1)"
| "findIndex_from i f (x # xs) =
     (case f x of Inl e \<Rightarrow> Inl e
      | Inr b \<Rightarrow> if b then Inr i else findIndex_from (i + 1) f xs)"

definition findIndex :: "('a \<Rightarrow> error + bool) \<Rightarrow> 'a list \<Rightarrow> error + int" where
  "findIndex f xs = findIndex_from 0 f xs"

text \<open>The callback \<open>j => j.id === v\<close>.\<close>

definition id_is :: "jsval \<Rightarrow> jsval \<Rightarrow> error + bool" where
  "id_is v j = (case js_member j ''id'' of Inl e \<Rightarrow> Inl e | Inr w \<Rightarrow> Inr (strict_eq w v))"

text \<open>\<open>xs.splice(start, 1)\<close> and \<open>xs.splice(start, 0, x)\<close>: a negative start counts from the
  end, and the start is clamped to the array. The first yields the removed elements and
  the array that is left.\<close>

definition splice_start :: "'a list \<Rightarrow> int \<Rightarrow> nat" where
  "splice_start xs start =
     (let len = int (length xs)
      in nat (if start < 0 then max (len + start) 0 else min start len))"

definition splice_delete1 :: "'a list \<Rightarrow> int \<Rightarrow> 'a list \<times> 'a list" where
  "splice_delete1 xs start =
     (let k = splice_start xs start in (take 1 (drop k xs), take k xs @ drop (k + 1) xs))"

definition splice_insert :: "'a list \<Rightarrow> int \<Rightarrow> 'a \<Rightarrow> 'a list" where
  "splice_insert xs start x = (let k = splice_start xs start in take k xs @ x # drop k xs)"

subsection \<open>JobsView\<close>

text \<open>\<open>loadJobs\<close>: the part before the \<open>await\<close> sets the loading flag; the continuation
  runs with the outcome of \<open>api.getJobs(filters)\<close>, called with the filters of the render
  that created the callback.\<close>

definition loadJobs_begin :: "jobs_page \<Rightarrow> jobs_page" where
  "loadJobs_begin s = s\<lparr>loading := True\<rparr>"

definition loadJobs_finish :: "real \<Rightarrow> real \<Rightarrow> params \<Rightarrow> jobs_page \<Rightarrow> jobs_page" where
  "loadJobs_finish r_wait r_fail ps s =
     (case getJobs r_wait r_fail (idb s) ps of
        Inr response \<Rightarrow>
          s\<lparr>jobs := map JObj (data response),
            pagination_state := Some (pagination response),
            loading := False\<rparr>
      | Inl e \<Rightarrow>
          s\<lparr>console_errors := console_errors s @ [(''Failed to load jobs:'', e)],
            loading := False\<rparr>)"

definition loadJobs :: "real \<Rightarrow> real \<Rightarrow> jobs_page \<Rightarrow> jobs_page" where
  "loadJobs r_wait r_fail s = loadJobs_finish r_wait r_fail (filters s) (loadJobs_begin s)"

definition handleDragStart :: "jsval \<Rightarrow> jobs_page \<Rightarrow> jobs_page" where
  "handleDragStart job s = s\<lparr>draggedJob := job\<rparr>"

text \<open>\<open>handleDrop\<close> up to its \<open>await\<close>: \<open>Inr None\<close> when the guard returns, \<open>Inl\<close> when an
  exception ends the call, and otherwise the state with the optimistic list, with the
  500 ms timer of the simulated reorder call running.\<close>

definition handleDrop_begin :: "jsval \<Rightarrow> jobs_page \<Rightarrow> error + jobs_page option" where
  "handleDrop_begin targetJob s =
     (if \<not> truthy (draggedJob s) then Inr None
      else
        (case js_member (draggedJob s) ''id'' of
           Inl e \<Rightarrow> Inl e
         | Inr dragged_id \<Rightarrow>
             (case js_member targetJob ''id'' of
                Inl e \<Rightarrow> Inl e
              | Inr target_id \<Rightarrow>
                  if strict_eq dragged_id target_id then Inr None
                  else
                    (case findIndex (id_is dragged_id) (jobs s) of
                       Inl e \<Rightarrow> Inl e
                     | Inr draggedIndex \<Rightarrow>
                         (case findIndex (id_is target_id) (jobs s) of
                            Inl e \<Rightarrow> Inl e
                          | Inr targetIndex \<Rightarrow>
                              let (removed, rest) = splice_delete1 (jobs s) draggedIndex;
                                  draggedItem = (case removed of [] \<Rightarrow> JUndefined | x # _ \<Rightarrow> x);
                                  optimisticJobs = splice_insert rest targetIndex draggedItem
                              in Inr (Some (s\<lparr>jobs := optimisticJobs\<rparr>)))))))"

text \<open>The continuation of \<open>handleDrop\<close> when the timer fires: the simulated call rejects
  when the sample is below \<open>0.1\<close>, and then \<open>loadJobs()\<close> is started, not awaited, and the
  alert is shown. The result says whether a reload is now in flight.\<close>

definition handleDrop_settle :: "real \<Rightarrow> jobs_page \<Rightarrow> jobs_page \<times> bool" where
  "handleDrop_settle r_reorder s =
     (if r_reorder < 1 / 10
      then ((loadJobs_begin s)\<lparr>alerts := alerts s @ [''Reorder failed, rolling back...''],
                                draggedJob := JNull\<rparr>, True)
      else (s\<lparr>draggedJob := JNull\<rparr>, False))"

text \<open>A drop with nothing in between: the timer fires, and the reload, if one was
  started, completes.\<close>

definition handleDrop :: "real \<Rightarrow> real \<Rightarrow> real \<Rightarrow> jsval \<Rightarrow> jobs_page \<Rightarrow> error + jobs_page" where
  "handleDrop r_reorder r_wait r_fail targetJob s =
     (case handleDrop_begin targetJob s of
        Inl e \<Rightarrow> Inl e
      | Inr None \<Rightarrow> Inr s
      | Inr (Some s1) \<Rightarrow>
          (case handleDrop_settle r_reorder s1 of
             (s2, reloading) \<Rightarrow>
               Inr (if reloading then loadJobs_finish r_wait r_fail (filters s) s2 else s2)))"

subsection \<open>CreateJobModal\<close>

record formData =
  title :: string
  slug :: string
  tags :: string
  status_field :: string

definition formData_obj :: "formData \<Rightarrow> obj" where
  "formData_obj fd =
     [(''title'', JStr (title fd)), (''slug'', JStr (slug fd)),
      (''tags'', JStr (tags fd)), (''status'', JStr (status_field fd))]"

text \<open>\<open>handleSubmit\<close>, run to its end inside the jobs page that shows the modal. The guard
  on the title is the only validation of a new job in the program. \<open>onCreated\<close> closes the
  modal and reloads the list. The modal's own \<open>loading\<close> flag, which only disables its
  button, is left out.\<close>

definition handleSubmit ::
  "real \<Rightarrow> real \<Rightarrow> int \<Rightarrow> int \<Rightarrow> real \<Rightarrow> real \<Rightarrow> formData \<Rightarrow> jobs_page \<Rightarrow> jobs_page" where
  "handleSubmit r_wait r_fail now_id now_created r_wait' r_fail' fd s =
     (if trim (title fd) = [] then s\<lparr>alerts := alerts s @ [''Title is required'']\<rparr>
      else
        let payload =
              set_prop ''slug''
                (JStr (if slug fd \<noteq> [] then slug fd else replace_spaces (toLowerCase (title fd))))
                (set_prop ''tags''
                   (JArr (map JStr (filter (\<lambda>t. t \<noteq> []) (map trim (split_comma (tags fd))))))
                   (spread [] (formData_obj fd)))
        in (case createJob r_wait r_fail now_id now_created (idb s) payload of
              (Inr newJob, db') \<Rightarrow> loadJobs r_wait' r_fail' (s\<lparr>idb := db', showCreateModal := False\<rparr>)
            | (Inl e, db') \<Rightarrow> s\<lparr>idb := db', alerts := alerts s @ [''Failed to create job'']\<rparr>))"

subsection \<open>KanbanBoard in CandidatesView\<close>

record candidates_page = browser +
  candidates :: "jsval list"
  candidates_loading :: bool
  candidates_filters :: params
  candidates_pagination :: "pagination option"
  draggedCandidate :: jsval


definition loadCandidates_finish ::
  "real \<Rightarrow> real \<Rightarrow> params \<Rightarrow> candidates_page \<Rightarrow> candidates_page" where
  "loadCandidates_finish r_wait r_fail ps s =
     (case getCandidates r_wait r_fail (idb s) ps of
        Inr response \<Rightarrow>
          s\<lparr>candidates := map JObj (data response),
            candidates_pagination := Some (pagination response),
            candidates_loading := False\<rparr>
      | Inl e \<Rightarrow>
          s\<lparr>console_errors := console_errors s @ [(''Failed to load candidates:'', e)],
            candidates_loading := False\<rparr>)"

definition kanban_handleDragStart :: "jsval \<Rightarrow> candidates_page \<Rightarrow> candidates_page" where
  "kanban_handleDragStart candidate s = s\<lparr>draggedCandidate := candidate\<rparr>"

text \<open>\<open>KanbanBoard.handleDrop(stage)\<close> up to its \<open>await\<close>: it changes no state, and when
  the guard lets it pass it calls \<open>api.updateCandidate(draggedCandidate.id, { stage })\<close>;
  the result is the pair of arguments of that call.\<close>

definition kanban_handleDrop_begin ::
  "string \<Rightarrow> candidates_page \<Rightarrow> error + (jsval \<times> obj) option" where
  "kanban_handleDrop_begin stage' s =
     (if \<not> truthy (draggedCandidate s) then Inr None
      else
        (case js_member (draggedCandidate s) ''stage'' of
           Inl e \<Rightarrow> Inl e
         | Inr st \<Rightarrow>
             if strict_eq st (JStr stage') then Inr None
             else
               (case js_member (draggedCandidate s) ''id'' of
                  Inl e \<Rightarrow> Inl e
                | Inr cid \<Rightarrow> Inr (Some (cid, [(''stage'', JStr stage')])))))"



section \<open>Invariants\<close>

text \<open>An object store keeps its records in strictly ascending key order.\<close>

definition sorted_store :: "store \<Rightarrow> bool" where
  "sorted_store s = sorted_wrt key_lt (map fst s)"

section \<open>Pages, as the specification words them\<close>

text \<open>The slice \<open>[(page-1)*pageSize, page*pageSize)\<close> of a list, for a page counted from 1,
  and the positions of the list that the page shows.\<close>

definition spec_slice :: "'a list \<Rightarrow> nat \<Rightarrow> nat \<Rightarrow> 'a list" where
  "spec_slice xs size' p = take size' (drop ((p - 1) * size') xs)"

definition page_positions :: "nat \<Rightarrow> nat \<Rightarrow> nat \<Rightarrow> nat list" where
  "page_positions n size' p = [(p - 1) * size' ..< min (p * size') n]"

text \<open>The records a query selects, in the words of the specification: the search term
  occurs in the title (for a candidate, in the name or the email) with case ignored, and
  the status (the stage) is the one asked for. An absent or empty parameter selects
  everything.\<close>

definition selects_job :: "params \<Rightarrow> obj \<Rightarrow> bool" where
  "selects_job ps job =
     ((case search ps of
         None \<Rightarrow> True
       | Some s \<Rightarrow> s = [] \<or> (\<exists>t p q. get_prop job ''title'' = JStr t
                                    \<and> toLowerCase t = p @ toLowerCase s @ q))
      \<and> (case status ps of
            None \<Rightarrow> True
          | Some st \<Rightarrow> st = [] \<or> get_prop job ''status'' = JStr st))"

definition selects_candidate :: "params \<Rightarrow> obj \<Rightarrow> bool" where
  "selects_candidate ps c =
     ((case search ps of
         None \<Rightarrow> True
       | Some s \<Rightarrow>
           s = [] \<or> (\<exists>n. get_prop c ''name'' = JStr n
                        \<and> ((\<exists>p q. toLowerCase n = p @ toLowerCase s @ q)
                           \<or> (\<exists>e p q. get_prop c ''email'' = JStr e
                                       \<and> toLowerCase e = p @ toLowerCase s @ q))))
      \<and> (case stage ps of
            None \<Rightarrow> True
          | Some st \<Rightarrow> st = [] \<or> get_prop c ''stage'' = JStr st))"

section \<open>Example data\<close>

text \<open>Four jobs, a database that holds the first three and one that holds all four, and
  a jobs page that shows the first three with the filters \<open>JobsView\<close> starts with; used
  where a statement is evaluated at a concrete input.\<close>

abbreviation job_A :: obj where
  "job_A \<equiv> [(''id'', JStr ''job-1''), (''title'', JStr ''Editor''), (''order'', JNum 1)]"

abbreviation job_B :: obj where
  "job_B \<equiv> [(''id'', JStr ''job-2''), (''title'', JStr ''Writer''), (''order'', JNum 2)]"

abbreviation job_C :: obj where
  "job_C \<equiv> [(''id'', JStr ''job-3''), (''title'', JStr ''Printer''), (''order'', JNum 3)]"

abbreviation job_D :: obj where
  "job_D \<equiv> [(''id'', JStr ''job-4''), (''title'', JStr ''Binder''), (''order'', JNum 4)]"

abbreviation initial_filters :: params where
  "initial_filters \<equiv>
     \<lparr>search = Some [], status = Some [], stage = None, page = Some 1, pageSize = None\<rparr>"

abbreviation abc_db :: database where
  "abc_db \<equiv>
     \<lparr>jobs_store = [(KStr ''job-1'', job_A), (KStr ''job-2'', job_B), (KStr ''job-3'', job_C)],
      candidates_store = [], assessments_store = []\<rparr>"

abbreviation abcd_db :: database where
  "abcd_db \<equiv>
     \<lparr>jobs_store = [(KStr ''job-1'', job_A), (KStr ''job-2'', job_B), (KStr ''job-3'', job_C),
                    (KStr ''job-4'', job_D)],
      candidates_store = [], assessments_store = []\<rparr>"

abbreviation abc_page :: jobs_page where
  "abc_page \<equiv>
     \<lparr>idb = abc_db, alerts = [], console_errors = [],
      jobs = [JObj job_A, JObj job_B, JObj job_C], loading = False,
      filters = initial_filters,
      pagination_state = Some \<lparr>pg_page = 1, pg_pageSize = 10, total = 3, totalPages = 1\<rparr>,
      showCreateModal = False, draggedJob = JNull\<rparr>"

section \<open>Failure injection\<close>

text \<open>
  C4. The claim is that only create and update can fail with the simulated network error,
  and that a read never does, whatever the random sample. In the code every method of
  \<open>MockAPI\<close>, the three reads included, starts with \<open>await this.delay()\<close>, and \<open>delay\<close>
  throws when its sample is below \<open>0.05\<close>, although its own comment says
  "5% error rate on writes". At the sample \<open>0.01\<close> each read fails with the network
  error, on every database and for every argument.
\<close>

theorem reads_fail_at_low_sample:
  "getJobs r_wait (1 / 100) db ps = Inl NetworkError
   \<and> getCandidates r_wait (1 / 100) db ps = Inl NetworkError
   \<and> getAssessment r_wait (1 / 100) db jobId = Inl NetworkError"
  by (simp add: getJobs_def getCandidates_def getAssessment_def delay_def)


section \<open>Objects\<close>

lemma map_of_set_prop: "map_of (set_prop p v ob) = (map_of ob)(p \<mapsto> v)"
  by (induction ob) (auto simp: fun_eq_iff)



lemma set_prop_fresh: "p \<notin> fst ` set ob \<Longrightarrow> set_prop p v ob = ob @ [(p, v)]"
  by (induction ob) auto

lemma map_of_spread: "map_of (spread t s) = map_of t ++ map_of (rev s)"
  unfolding spread_def
  by (induction s arbitrary: t)
     (auto simp: map_of_set_prop fun_eq_iff map_add_def split: option.splits)


lemma spread_append: "distinct (map fst (t @ s)) \<Longrightarrow> spread t s = t @ s"
  unfolding spread_def
  by (induction s arbitrary: t) (auto simp: set_prop_fresh)

lemma spread_empty_distinct: "distinct (map fst r) \<Longrightarrow> spread [] r = r"
  using spread_append [of "[]" r] by simp

lemma map_of_rev_distinct: "distinct (map fst s) \<Longrightarrow> map_of (rev s) = map_of s"
proof (rule ext)
  fix x assume d: "distinct (map fst s)"
  then have d': "distinct (map fst (rev s))" by (simp add: rev_map[symmetric])
  show "map_of (rev s) x = map_of s x"
  proof (cases "map_of s x")
    case None
    then have "x \<notin> fst ` set s" by (simp add: map_of_eq_None_iff)
    then have "map_of (rev s) x = None" by (simp add: map_of_eq_None_iff)
    with None show ?thesis by simp
  next
    case (Some y)
    with d have "(x, y) \<in> set s" by simp
    then have "(x, y) \<in> set (rev s)" by simp
    with d' have "map_of (rev s) x = Some y" by (simp only: map_of_eq_Some_iff)
    with Some show ?thesis by simp
  qed
qed

lemma map_of_spread_distinct:
  "distinct (map fst s) \<Longrightarrow> map_of (spread t s) = map_of t ++ map_of s"
  by (simp add: map_of_spread map_of_rev_distinct)


lemma extract_key_spread:
  "distinct (map fst s) \<Longrightarrow>
   extract_key kp (spread t s) =
     (case map_of s kp of None \<Rightarrow> extract_key kp t | Some v \<Rightarrow> to_key v)"
  by (simp add: extract_key_def map_of_spread_distinct map_add_def split: option.splits)

section \<open>The order of keys and of stores\<close>

lemma key_lt_irrefl_aux:
  "a = b \<longrightarrow> \<not> key_lt a b"
  "as = bs \<longrightarrow> \<not> keys_lt as bs"
  by (induction a b and as bs rule: key_lt_keys_lt.induct) auto

lemma key_lt_irrefl: "\<not> key_lt k k"
  using key_lt_irrefl_aux(1) by blast

lemma key_lt_trans_aux:
  "\<forall>c. key_lt a b \<longrightarrow> key_lt b c \<longrightarrow> key_lt a c"
  "\<forall>cs. keys_lt as bs \<longrightarrow> keys_lt bs cs \<longrightarrow> keys_lt as cs"
proof (induction a b and as bs rule: key_lt_keys_lt.induct)
  case (10 us ws)
  show ?case
  proof (intro allI impI)
    fix c assume "key_lt (KArr us) (KArr ws)" "key_lt (KArr ws) c"
    then show "key_lt (KArr us) c" using 10 by (cases c) auto
  qed
next
  case (15 x xs y ys)
  show ?case
  proof (intro allI impI)
    fix cs assume 1: "keys_lt (x # xs) (y # ys)" and 2: "keys_lt (y # ys) cs"
    then obtain z zs where cs: "cs = z # zs" by (cases cs) auto
    show "keys_lt (x # xs) cs" using 1 2 15 unfolding cs by auto
  qed
qed (auto, (rename_tac c, case_tac c; simp)+)

lemma key_lt_trans: "key_lt a b \<Longrightarrow> key_lt b c \<Longrightarrow> key_lt a c"
  using key_lt_trans_aux(1) by blast



lemma key_lt_asym: "key_lt a b \<Longrightarrow> \<not> key_lt b a"
  using key_lt_trans key_lt_irrefl by blast

lemma map_of_store_insert: "map_of (store_insert k r s) = (map_of s)(k \<mapsto> r)"
  by (induction s) (auto simp: fun_eq_iff)

lemma length_store_insert_fresh:
  "map_of s k = None \<Longrightarrow> length (store_insert k r s) = Suc (length s)"
  by (induction s) (auto split: if_splits)



lemma keys_store_insert_present:
  "sorted_store s \<Longrightarrow> map_of s k = Some r0 \<Longrightarrow> map fst (store_insert k r s) = map fst s"
proof (induction s)
  case Nil
  then show ?case by simp
next
  case (Cons a s)
  obtain k' r' where a: "a = (k', r')" by (cases a)
  show ?case
  proof (cases "k = k'")
    case True
    then show ?thesis by (simp add: a)
  next
    case False
    with Cons.prems have in_tail: "map_of s k = Some r0" by (simp add: a)
    then have "k \<in> fst ` set s" by (metis map_of_eq_None_iff option.distinct(1))
    with Cons.prems have "key_lt k' k" by (auto simp: sorted_store_def a)
    then have "\<not> key_lt k k'" by (rule key_lt_asym)
    moreover have "sorted_store s" using Cons.prems by (simp add: sorted_store_def a)
    ultimately show ?thesis using False Cons.IH in_tail by (simp add: a)
  qed
qed

lemma distinct_keys_sorted: "sorted_store s \<Longrightarrow> distinct (map fst s)"
  unfolding sorted_store_def
  by (induction s) (auto simp: key_lt_irrefl)

section \<open>Updates\<close>

text \<open>
  What \<open>updateJob\<close> and \<open>updateCandidate\<close> do once \<open>delay\<close> has let them pass and the
  argument is a valid key: the record read from the store, or nothing when the key is
  absent, is spread into a new object, the patch is spread over it, and the result is
  \<open>put\<close> under whatever key its own \<open>id\<close> property gives.
\<close>

lemma updateJob_unfold:
  assumes "5 / 100 \<le> r_fail" and "to_key id' = Some k"
  shows "updateJob r_wait r_fail db id' updates =
           (case extract_key ''id'' (spread (spread_opt [] (map_of (jobs_store db) k)) updates) of
              None \<Rightarrow> (Inl DataError, db)
            | Some k' \<Rightarrow>
                (Inr (spread (spread_opt [] (map_of (jobs_store db) k)) updates),
                 db\<lparr>jobs_store :=
                      store_insert k' (spread (spread_opt [] (map_of (jobs_store db) k)) updates)
                        (jobs_store db)\<rparr>))"
  using assms
  by (simp add: updateJob_def delay_def store_get_def store_put_def Let_def split: option.splits)

lemma updateCandidate_unfold:
  assumes "5 / 100 \<le> r_fail" and "to_key id' = Some k"
  shows "updateCandidate r_wait r_fail db id' updates =
           (case extract_key ''id'' (spread (spread_opt [] (map_of (candidates_store db) k)) updates) of
              None \<Rightarrow> (Inl DataError, db)
            | Some k' \<Rightarrow>
                (Inr (spread (spread_opt [] (map_of (candidates_store db) k)) updates),
                 db\<lparr>candidates_store :=
                      store_insert k' (spread (spread_opt [] (map_of (candidates_store db) k)) updates)
                        (candidates_store db)\<rparr>))"
  using assms
  by (simp add: updateCandidate_def delay_def store_get_def store_put_def Let_def split: option.splits)

text \<open>
  C10, as the code has it. The claim holds for the calls that \<open>delay\<close> lets pass. For
  every record \<open>r\<close> stored under the key \<open>k\<close> and every patch whose \<open>id\<close> is another valid
  key \<open>k'\<close>, the update, when \<open>delay\<close> lets it pass, returns the merge of the patch over
  \<open>r\<close> (a property named in the patch has the patch's value, every other property the
  value it has in \<open>r\<close>) and stores it under \<open>k'\<close>; the record under \<open>k\<close>, and every record
  under a key other than \<open>k'\<close>, stays as it was: the store holds both, and it has one
  record more when \<open>k'\<close> was free. This holds for \<open>updateJob\<close> on the jobs and for
  \<open>updateCandidate\<close> on the candidates.
\<close>

theorem update_with_other_id_duplicates:
  assumes ok: "5 / 100 \<le> r_fail"
    and key: "to_key id' = Some k"
    and stored: "distinct (map fst r)"
    and patch: "distinct (map fst updates)"
    and new_id: "map_of updates ''id'' = Some v" "to_key v = Some k'" "k' \<noteq> k"
  shows "(map_of (jobs_store db) k = Some r \<longrightarrow>
            (\<exists>merged db'. updateJob r_wait r_fail db id' updates = (Inr merged, db')
               \<and> (\<forall>p. map_of merged p = (case map_of updates p of Some w \<Rightarrow> Some w | None \<Rightarrow> map_of r p))
               \<and> map_of (jobs_store db') k' = Some merged
               \<and> map_of (jobs_store db') k = Some r
               \<and> (\<forall>j. j \<noteq> k' \<longrightarrow> map_of (jobs_store db') j = map_of (jobs_store db) j)
               \<and> (map_of (jobs_store db) k' = None \<longrightarrow>
                    store_count (jobs_store db') = store_count (jobs_store db) + 1)))
       \<and> (map_of (candidates_store db) k = Some r \<longrightarrow>
            (\<exists>merged db'. updateCandidate r_wait r_fail db id' updates = (Inr merged, db')
               \<and> (\<forall>p. map_of merged p = (case map_of updates p of Some w \<Rightarrow> Some w | None \<Rightarrow> map_of r p))
               \<and> map_of (candidates_store db') k' = Some merged
               \<and> map_of (candidates_store db') k = Some r
               \<and> (\<forall>j. j \<noteq> k' \<longrightarrow> map_of (candidates_store db') j = map_of (candidates_store db) j)
               \<and> (map_of (candidates_store db) k' = None \<longrightarrow>
                    store_count (candidates_store db') = store_count (candidates_store db) + 1)))"
proof -
  let ?m = "spread (spread [] r) updates"
  have m: "?m = spread r updates" using stored by (simp add: spread_empty_distinct)
  have k': "extract_key ''id'' ?m = Some k'"
    using patch new_id(1,2) by (simp add: extract_key_spread)
  have fields: "\<forall>p. map_of ?m p = (case map_of updates p of Some w \<Rightarrow> Some w | None \<Rightarrow> map_of r p)"
    using patch by (simp add: m map_of_spread_distinct map_add_def)
  show ?thesis
  proof (intro conjI impI)
    assume r: "map_of (jobs_store db) k = Some r"
    have "updateJob r_wait r_fail db id' updates
            = (Inr ?m, db\<lparr>jobs_store := store_insert k' ?m (jobs_store db)\<rparr>)"
      using k' by (simp add: updateJob_unfold [OF ok key] r spread_opt_def)
    with fields r new_id(3)
    show "\<exists>merged db'. updateJob r_wait r_fail db id' updates = (Inr merged, db')
               \<and> (\<forall>p. map_of merged p = (case map_of updates p of Some w \<Rightarrow> Some w | None \<Rightarrow> map_of r p))
               \<and> map_of (jobs_store db') k' = Some merged
               \<and> map_of (jobs_store db') k = Some r
               \<and> (\<forall>j. j \<noteq> k' \<longrightarrow> map_of (jobs_store db') j = map_of (jobs_store db) j)
               \<and> (map_of (jobs_store db) k' = None \<longrightarrow>
                    store_count (jobs_store db') = store_count (jobs_store db) + 1)"
      by (simp add: map_of_store_insert store_count_def length_store_insert_fresh)
  next
    assume r: "map_of (candidates_store db) k = Some r"
    have "updateCandidate r_wait r_fail db id' updates
            = (Inr ?m, db\<lparr>candidates_store := store_insert k' ?m (candidates_store db)\<rparr>)"
      using k' by (simp add: updateCandidate_unfold [OF ok key] r spread_opt_def)
    with fields r new_id(3)
    show "\<exists>merged db'. updateCandidate r_wait r_fail db id' updates = (Inr merged, db')
               \<and> (\<forall>p. map_of merged p = (case map_of updates p of Some w \<Rightarrow> Some w | None \<Rightarrow> map_of r p))
               \<and> map_of (candidates_store db') k' = Some merged
               \<and> map_of (candidates_store db') k = Some r
               \<and> (\<forall>j. j \<noteq> k' \<longrightarrow> map_of (candidates_store db') j = map_of (candidates_store db) j)
               \<and> (map_of (candidates_store db) k' = None \<longrightarrow>
                    store_count (candidates_store db') = store_count (candidates_store db) + 1)"
      by (simp add: map_of_store_insert store_count_def length_store_insert_fresh)
  qed
qed

text \<open>C10 as stated, for every call, fails: when the sample of \<open>delay\<close> is below \<open>0.05\<close> the
  update is rejected with the network error before it reads the store, and nothing is
  stored under the new key.\<close>

theorem update_with_other_id_rejected_by_delay:
  "updateJob 0 (1 / 100)
     \<lparr>jobs_store = [(KStr ''job-1'', [(''id'', JStr ''job-1''), (''title'', JStr ''Editor'')])],
      candidates_store = [], assessments_store = []\<rparr>
     (JStr ''job-1'') [(''id'', JStr ''job-9''), (''status'', JStr ''archived'')]
   = (Inl NetworkError,
      \<lparr>jobs_store = [(KStr ''job-1'', [(''id'', JStr ''job-1''), (''title'', JStr ''Editor'')])],
       candidates_store = [], assessments_store = []\<rparr>)
   \<and> updateCandidate 0 (1 / 100)
       \<lparr>jobs_store = [],
        candidates_store = [(KStr ''candidate-1'', [(''id'', JStr ''candidate-1''), (''stage'', JStr ''applied'')])],
        assessments_store = []\<rparr>
       (JStr ''candidate-1'') [(''stage'', JStr ''tech''), (''id'', JNum 7)]
     = (Inl NetworkError,
        \<lparr>jobs_store = [],
         candidates_store = [(KStr ''candidate-1'', [(''id'', JStr ''candidate-1''), (''stage'', JStr ''applied'')])],
         assessments_store = []\<rparr>)"
  by (simp add: updateJob_def updateCandidate_def delay_def)

text \<open>The same calls when \<open>delay\<close> lets them pass: a job whose patch renames it to \<open>job-9\<close>,
  and a candidate whose patch carries the number 7 as id.\<close>

theorem update_with_other_id_duplicates_witness:
  "(\<exists>merged db'. updateJob 0 (1 / 2)
            \<lparr>jobs_store = [(KStr ''job-1'', [(''id'', JStr ''job-1''), (''title'', JStr ''Editor'')])],
             candidates_store = [], assessments_store = []\<rparr>
            (JStr ''job-1'') [(''id'', JStr ''job-9''), (''status'', JStr ''archived'')]
          = (Inr merged, db')
        \<and> map_of merged ''id'' = Some (JStr ''job-9'')
        \<and> map_of merged ''title'' = Some (JStr ''Editor'')
        \<and> map_of merged ''status'' = Some (JStr ''archived'')
        \<and> map_of (jobs_store db') (KStr ''job-9'') = Some merged
        \<and> map_of (jobs_store db') (KStr ''job-1'')
            = Some [(''id'', JStr ''job-1''), (''title'', JStr ''Editor'')]
        \<and> store_count (jobs_store db') = 2)
   \<and> (\<exists>merged db'. updateCandidate 0 (1 / 2)
            \<lparr>jobs_store = [],
             candidates_store = [(KStr ''candidate-1'', [(''id'', JStr ''candidate-1''), (''stage'', JStr ''applied'')])],
             assessments_store = []\<rparr>
            (JStr ''candidate-1'') [(''stage'', JStr ''tech''), (''id'', JNum 7)]
          = (Inr merged, db')
        \<and> map_of merged ''id'' = Some (JNum 7)
        \<and> map_of merged ''stage'' = Some (JStr ''tech'')
        \<and> map_of (candidates_store db') (KNum 7) = Some merged
        \<and> map_of (candidates_store db') (KStr ''candidate-1'')
            = Some [(''id'', JStr ''candidate-1''), (''stage'', JStr ''applied'')]
        \<and> store_count (candidates_store db') = 2)"
proof -
  have j: "(5::real) / 100 \<le> 1 / 2" by simp
  let ?jdb = "\<lparr>jobs_store = [(KStr ''job-1'', [(''id'', JStr ''job-1''), (''title'', JStr ''Editor'')])],
             candidates_store = [], assessments_store = []\<rparr>"
  let ?cdb = "\<lparr>jobs_store = [],
             candidates_store = [(KStr ''candidate-1'', [(''id'', JStr ''candidate-1''), (''stage'', JStr ''applied'')])],
             assessments_store = []\<rparr>"
  note a = update_with_other_id_duplicates
      [OF j, where id' = "JStr ''job-1''" and k = "KStr ''job-1''"
         and updates = "[(''id'', JStr ''job-9''), (''status'', JStr ''archived'')]"
         and v = "JStr ''job-9''" and k' = "KStr ''job-9''" and db = ?jdb
         and r = "[(''id'', JStr ''job-1''), (''title'', JStr ''Editor'')]" and r_wait = 0]
  note b = update_with_other_id_duplicates
      [OF j, where id' = "JStr ''candidate-1''" and k = "KStr ''candidate-1''"
         and updates = "[(''stage'', JStr ''tech''), (''id'', JNum 7)]"
         and v = "JNum 7" and k' = "KNum 7" and db = ?cdb
         and r = "[(''id'', JStr ''candidate-1''), (''stage'', JStr ''applied'')]" and r_wait = 0]
  from a obtain m1 d1 where 1:
      "updateJob 0 (1 / 2) ?jdb (JStr ''job-1'') [(''id'', JStr ''job-9''), (''status'', JStr ''archived'')]
         = (Inr m1, d1)"
      "\<forall>p. map_of m1 p = (case map_of [(''id'', JStr ''job-9''), (''status'', JStr ''archived'')] p of
                             Some w \<Rightarrow> Some w
                           | None \<Rightarrow> map_of [(''id'', JStr ''job-1''), (''title'', JStr ''Editor'')] p)"
      "map_of (jobs_store d1) (KStr ''job-9'') = Some m1"
      "map_of (jobs_store d1) (KStr ''job-1'') = Some [(''id'', JStr ''job-1''), (''title'', JStr ''Editor'')]"
      "store_count (jobs_store d1) = 2"
    by (auto simp: store_count_def)
  from b obtain m2 d2 where 2:
      "updateCandidate 0 (1 / 2) ?cdb (JStr ''candidate-1'') [(''stage'', JStr ''tech''), (''id'', JNum 7)]
         = (Inr m2, d2)"
      "\<forall>p. map_of m2 p = (case map_of [(''stage'', JStr ''tech''), (''id'', JNum 7)] p of
                             Some w \<Rightarrow> Some w
                           | None \<Rightarrow> map_of [(''id'', JStr ''candidate-1''), (''stage'', JStr ''applied'')] p)"
      "map_of (candidates_store d2) (KNum 7) = Some m2"
      "map_of (candidates_store d2) (KStr ''candidate-1'')
         = Some [(''id'', JStr ''candidate-1''), (''stage'', JStr ''applied'')]"
      "store_count (candidates_store d2) = 2"
    by (auto simp: store_count_def)
  have "map_of m1 ''id'' = Some (JStr ''job-9'')" "map_of m1 ''title'' = Some (JStr ''Editor'')"
    "map_of m1 ''status'' = Some (JStr ''archived'')"
    using 1(2) by simp_all
  moreover have "map_of m2 ''id'' = Some (JNum 7)" "map_of m2 ''stage'' = Some (JStr ''tech'')"
    using 2(2) by simp_all
  ultimately show ?thesis using 1(1,3,4,5) 2(1,3,4,5) by blast
qed

text \<open>
  C3, as the code has it. The claim is that an update of an absent key fails with
  \<open>NotFound\<close>, returns no record and writes nothing. The code has no such error and does
  not look at what \<open>store.get\<close> found: for a key \<open>k\<close> that the store does not hold, the
  patch is spread over nothing. When \<open>delay\<close> lets the call pass: if the patch has no
  valid key under \<open>id\<close>, \<open>store.put\<close> throws \<open>DataError\<close> and the database is unchanged;
  if it has one, \<open>k'\<close>, a record with exactly the properties of the patch is returned and
  stored under \<open>k'\<close>, every other key keeps what it had, and the store has one record
  more when \<open>k'\<close> was free.
\<close>

theorem update_of_absent_key:
  assumes ok: "5 / 100 \<le> r_fail"
    and key: "to_key id' = Some k"
    and patch: "distinct (map fst updates)"
  shows "(map_of (jobs_store db) k = None \<longrightarrow>
            (case extract_key ''id'' updates of
               None \<Rightarrow> updateJob r_wait r_fail db id' updates = (Inl DataError, db)
             | Some k' \<Rightarrow>
                 (\<exists>created db'. updateJob r_wait r_fail db id' updates = (Inr created, db')
                    \<and> (\<forall>p. map_of created p = map_of updates p)
                    \<and> map_of (jobs_store db') k' = Some created
                    \<and> (\<forall>j. j \<noteq> k' \<longrightarrow> map_of (jobs_store db') j = map_of (jobs_store db) j)
                    \<and> (map_of (jobs_store db) k' = None \<longrightarrow>
                         store_count (jobs_store db') = store_count (jobs_store db) + 1))))
       \<and> (map_of (candidates_store db) k = None \<longrightarrow>
            (case extract_key ''id'' updates of
               None \<Rightarrow> updateCandidate r_wait r_fail db id' updates = (Inl DataError, db)
             | Some k' \<Rightarrow>
                 (\<exists>created db'. updateCandidate r_wait r_fail db id' updates = (Inr created, db')
                    \<and> (\<forall>p. map_of created p = map_of updates p)
                    \<and> map_of (candidates_store db') k' = Some created
                    \<and> (\<forall>j. j \<noteq> k' \<longrightarrow> map_of (candidates_store db') j = map_of (candidates_store db) j)
                    \<and> (map_of (candidates_store db) k' = None \<longrightarrow>
                         store_count (candidates_store db') = store_count (candidates_store db) + 1))))"
  by (auto simp: updateJob_unfold [OF ok key] updateCandidate_unfold [OF ok key]
      spread_opt_def spread_empty_distinct [OF patch] map_of_store_insert store_count_def
      length_store_insert_fresh split: option.splits)

text \<open>C3 as stated fails: on the empty database, \<open>updateJob('job-404', {id: 'job-404',
  status: 'archived'})\<close> returns a record and writes it.\<close>

theorem update_of_absent_key_creates:
  "updateJob 0 (1 / 2) empty_db (JStr ''job-404'')
     [(''id'', JStr ''job-404''), (''status'', JStr ''archived'')]
   = (Inr [(''id'', JStr ''job-404''), (''status'', JStr ''archived'')],
      \<lparr>jobs_store = [(KStr ''job-404'', [(''id'', JStr ''job-404''), (''status'', JStr ''archived'')])],
       candidates_store = [], assessments_store = []\<rparr>)"
  by (simp add: updateJob_def delay_def store_get_def store_put_def extract_key_def
      spread_def spread_opt_def empty_db_def Let_def)

text \<open>Both branches at concrete calls: a patch without \<open>id\<close>, and a patch with one.\<close>

theorem update_of_absent_key_witness:
  "updateJob 0 (1 / 2) empty_db (JStr ''job-404'') [(''status'', JStr ''archived'')]
     = (Inl DataError, empty_db)
   \<and> (\<exists>created db'. updateCandidate 0 (1 / 2) empty_db (JStr ''candidate-404'')
                [(''id'', JStr ''candidate-7''), (''stage'', JStr ''hired'')]
              = (Inr created, db')
          \<and> map_of created ''id'' = Some (JStr ''candidate-7'')
          \<and> map_of created ''stage'' = Some (JStr ''hired'')
          \<and> map_of (candidates_store db') (KStr ''candidate-7'') = Some created
          \<and> store_count (candidates_store db') = 1)"
proof -
  have j: "(5::real) / 100 \<le> 1 / 2" by simp
  note a = update_of_absent_key
      [OF j, where id' = "JStr ''job-404''" and k = "KStr ''job-404''" and db = empty_db
          and updates = "[(''status'', JStr ''archived'')]" and r_wait = 0]
  note b = update_of_absent_key
      [OF j, where id' = "JStr ''candidate-404''" and k = "KStr ''candidate-404''" and db = empty_db
          and updates = "[(''id'', JStr ''candidate-7''), (''stage'', JStr ''hired'')]" and r_wait = 0]
  have first: "updateJob 0 (1 / 2) empty_db (JStr ''job-404'') [(''status'', JStr ''archived'')]
     = (Inl DataError, empty_db)"
    using a by (simp add: extract_key_def empty_db_def)
  from b obtain c d where 2:
      "updateCandidate 0 (1 / 2) empty_db (JStr ''candidate-404'')
                [(''id'', JStr ''candidate-7''), (''stage'', JStr ''hired'')] = (Inr c, d)"
      "\<forall>p. map_of c p = map_of [(''id'', JStr ''candidate-7''), (''stage'', JStr ''hired'')] p"
      "map_of (candidates_store d) (KStr ''candidate-7'') = Some c"
      "store_count (candidates_store d) = 1"
    by (auto simp: extract_key_def empty_db_def store_count_def)
  have "map_of c ''id'' = Some (JStr ''candidate-7'')" "map_of c ''stage'' = Some (JStr ''hired'')"
    using 2(2) by simp_all
  then show ?thesis using first 2(1,3,4) by blast
qed

text \<open>
  C5, as the code has it. The claim holds for the patches that leave the key alone. For
  every record \<open>r\<close> stored under its own key \<open>k\<close> and every patch that has no \<open>id\<close>, or
  has the key \<open>k\<close> as \<open>id\<close>, the update, when \<open>delay\<close> lets it pass, returns the shallow
  merge: a property named in the patch has the patch's value, every other property has
  the value it had in \<open>r\<close>. The merge is stored under \<open>k\<close>, every other key keeps its
  record, the keys of a sorted store are the same as before, and the other two stores
  are untouched. (A patch with another \<open>id\<close> is C10.)
\<close>

theorem update_merges_patch:
  assumes ok: "5 / 100 \<le> r_fail"
    and key: "to_key id' = Some k"
    and stored: "distinct (map fst r)" "extract_key ''id'' r = Some k"
    and patch: "distinct (map fst updates)"
               "(case map_of updates ''id'' of None \<Rightarrow> True | Some v \<Rightarrow> to_key v = Some k)"
  shows "(map_of (jobs_store db) k = Some r \<longrightarrow>
            (\<exists>merged db'. updateJob r_wait r_fail db id' updates = (Inr merged, db')
               \<and> (\<forall>p. map_of merged p = (case map_of updates p of Some v \<Rightarrow> Some v | None \<Rightarrow> map_of r p))
               \<and> map_of (jobs_store db') k = Some merged
               \<and> (\<forall>j. j \<noteq> k \<longrightarrow> map_of (jobs_store db') j = map_of (jobs_store db) j)
               \<and> (sorted_store (jobs_store db) \<longrightarrow> map fst (jobs_store db') = map fst (jobs_store db))
               \<and> candidates_store db' = candidates_store db
               \<and> assessments_store db' = assessments_store db))
       \<and> (map_of (candidates_store db) k = Some r \<longrightarrow>
            (\<exists>merged db'. updateCandidate r_wait r_fail db id' updates = (Inr merged, db')
               \<and> (\<forall>p. map_of merged p = (case map_of updates p of Some v \<Rightarrow> Some v | None \<Rightarrow> map_of r p))
               \<and> map_of (candidates_store db') k = Some merged
               \<and> (\<forall>j. j \<noteq> k \<longrightarrow> map_of (candidates_store db') j = map_of (candidates_store db) j)
               \<and> (sorted_store (candidates_store db) \<longrightarrow>
                    map fst (candidates_store db') = map fst (candidates_store db))
               \<and> jobs_store db' = jobs_store db
               \<and> assessments_store db' = assessments_store db))"
proof -
  let ?m = "spread (spread [] r) updates"
  have m: "?m = spread r updates" using stored(1) by (simp add: spread_empty_distinct)
  have "extract_key ''id'' (spread r updates)
          = (case map_of updates ''id'' of None \<Rightarrow> extract_key ''id'' r | Some v \<Rightarrow> to_key v)"
    by (rule extract_key_spread [OF patch(1)])
  then have k: "extract_key ''id'' ?m = Some k"
    using patch(2) stored(2) by (cases "map_of updates ''id''") (simp_all only: m option.case)
  have fields: "\<forall>p. map_of ?m p = (case map_of updates p of Some v \<Rightarrow> Some v | None \<Rightarrow> map_of r p)"
    using patch(1) by (simp add: m map_of_spread_distinct map_add_def)
  show ?thesis
  proof (intro conjI impI)
    assume r: "map_of (jobs_store db) k = Some r"
    have "updateJob r_wait r_fail db id' updates
            = (Inr ?m, db\<lparr>jobs_store := store_insert k ?m (jobs_store db)\<rparr>)"
      using k by (simp add: updateJob_unfold [OF ok key] r spread_opt_def)
    with fields r show "\<exists>merged db'. updateJob r_wait r_fail db id' updates = (Inr merged, db')
               \<and> (\<forall>p. map_of merged p = (case map_of updates p of Some v \<Rightarrow> Some v | None \<Rightarrow> map_of r p))
               \<and> map_of (jobs_store db') k = Some merged
               \<and> (\<forall>j. j \<noteq> k \<longrightarrow> map_of (jobs_store db') j = map_of (jobs_store db) j)
               \<and> (sorted_store (jobs_store db) \<longrightarrow> map fst (jobs_store db') = map fst (jobs_store db))
               \<and> candidates_store db' = candidates_store db
               \<and> assessments_store db' = assessments_store db"
      by (simp add: map_of_store_insert keys_store_insert_present)
  next
    assume r: "map_of (candidates_store db) k = Some r"
    have "updateCandidate r_wait r_fail db id' updates
            = (Inr ?m, db\<lparr>candidates_store := store_insert k ?m (candidates_store db)\<rparr>)"
      using k by (simp add: updateCandidate_unfold [OF ok key] r spread_opt_def)
    with fields r show "\<exists>merged db'. updateCandidate r_wait r_fail db id' updates = (Inr merged, db')
               \<and> (\<forall>p. map_of merged p = (case map_of updates p of Some v \<Rightarrow> Some v | None \<Rightarrow> map_of r p))
               \<and> map_of (candidates_store db') k = Some merged
               \<and> (\<forall>j. j \<noteq> k \<longrightarrow> map_of (candidates_store db') j = map_of (candidates_store db) j)
               \<and> (sorted_store (candidates_store db) \<longrightarrow>
                    map fst (candidates_store db') = map fst (candidates_store db))
               \<and> jobs_store db' = jobs_store db
               \<and> assessments_store db' = assessments_store db"
      by (simp add: map_of_store_insert keys_store_insert_present)
  qed
qed

text \<open>C5 as stated, for every patch, fails: a patch that carries the \<open>id\<close> of another record
  replaces that record and leaves the one it was applied to as it was.\<close>

theorem update_with_id_of_other_record:
  "updateJob 0 (1 / 2)
     \<lparr>jobs_store = [(KStr ''job-1'', [(''id'', JStr ''job-1''), (''title'', JStr ''Editor'')]),
                    (KStr ''job-2'', [(''id'', JStr ''job-2''), (''title'', JStr ''Writer'')])],
      candidates_store = [], assessments_store = []\<rparr>
     (JStr ''job-1'') [(''id'', JStr ''job-2'')]
   = (Inr [(''id'', JStr ''job-2''), (''title'', JStr ''Editor'')],
      \<lparr>jobs_store = [(KStr ''job-1'', [(''id'', JStr ''job-1''), (''title'', JStr ''Editor'')]),
                     (KStr ''job-2'', [(''id'', JStr ''job-2''), (''title'', JStr ''Editor'')])],
       candidates_store = [], assessments_store = []\<rparr>)"
  by (simp add: updateJob_def delay_def store_get_def store_put_def extract_key_def
      spread_def spread_opt_def Let_def)

text \<open>The instance the claim names, \<open>updateJob(id, {status: 'archived'})\<close>: only the status
  changes, and the other job is as before; and a stage change of a candidate.\<close>

theorem update_merges_patch_witness:
  "(\<exists>db'. updateJob 0 (1 / 2)
            \<lparr>jobs_store = [(KStr ''job-1'', [(''id'', JStr ''job-1''), (''title'', JStr ''Editor''),
                                             (''status'', JStr ''active'')]),
                           (KStr ''job-2'', [(''id'', JStr ''job-2''), (''title'', JStr ''Writer''),
                                             (''status'', JStr ''active'')])],
             candidates_store = [], assessments_store = []\<rparr>
            (JStr ''job-1'') [(''status'', JStr ''archived'')]
          = (Inr [(''id'', JStr ''job-1''), (''title'', JStr ''Editor''), (''status'', JStr ''archived'')], db')
        \<and> map fst (jobs_store db') = [KStr ''job-1'', KStr ''job-2'']
        \<and> map_of (jobs_store db') (KStr ''job-2'')
            = Some [(''id'', JStr ''job-2''), (''title'', JStr ''Writer''), (''status'', JStr ''active'')])
   \<and> (\<exists>db'. updateCandidate 0 (1 / 2)
            \<lparr>jobs_store = [],
             candidates_store = [(KStr ''candidate-1'', [(''id'', JStr ''candidate-1''),
                                                         (''stage'', JStr ''applied'')])],
             assessments_store = []\<rparr>
            (JStr ''candidate-1'') [(''stage'', JStr ''tech'')]
          = (Inr [(''id'', JStr ''candidate-1''), (''stage'', JStr ''tech'')], db')
        \<and> map fst (candidates_store db') = [KStr ''candidate-1''])"
proof -
  have j: "(5::real) / 100 \<le> 1 / 2" by simp
  note a = update_merges_patch
      [OF j, where id' = "JStr ''job-1''" and k = "KStr ''job-1''"
         and r = "[(''id'', JStr ''job-1''), (''title'', JStr ''Editor''), (''status'', JStr ''active'')]"
         and updates = "[(''status'', JStr ''archived'')]" and r_wait = 0
         and db = "\<lparr>jobs_store = [(KStr ''job-1'', [(''id'', JStr ''job-1''), (''title'', JStr ''Editor''),
                                             (''status'', JStr ''active'')]),
                           (KStr ''job-2'', [(''id'', JStr ''job-2''), (''title'', JStr ''Writer''),
                                             (''status'', JStr ''active'')])],
             candidates_store = [], assessments_store = []\<rparr>"]
  note b = update_merges_patch
      [OF j, where id' = "JStr ''candidate-1''" and k = "KStr ''candidate-1''"
         and r = "[(''id'', JStr ''candidate-1''), (''stage'', JStr ''applied'')]"
         and updates = "[(''stage'', JStr ''tech'')]" and r_wait = 0
         and db = "\<lparr>jobs_store = [],
             candidates_store = [(KStr ''candidate-1'', [(''id'', JStr ''candidate-1''),
                                                         (''stage'', JStr ''applied'')])],
             assessments_store = []\<rparr>"]
  have lt: "(''job-1'' :: string) < ''job-2''" by simp
  show ?thesis using a b lt
    by (auto simp: extract_key_def sorted_store_def updateJob_def updateCandidate_def delay_def
        store_get_def store_put_def spread_def spread_opt_def Let_def)
qed


section \<open>Properties of the views\<close>

text \<open>The characters that \<open>toLowerCase\<close> computes, bit by bit, for evaluation.\<close>

lemma char_of_nat_bits:
  "char_of (n::nat) = Char (odd n) (odd (n div 2)) (odd (n div 4)) (odd (n div 8))
                           (odd (n div 16)) (odd (n div 32)) (odd (n div 64)) (odd (n div 128))"
  by (simp add: char_of_def bit_iff_odd)

text \<open>The part of \<open>handleDrop\<close> before the timer changes the list and nothing else.\<close>

lemma handleDrop_begin_only_jobs:
  "handleDrop_begin targetJob s = Inr (Some s1) \<Longrightarrow> s1 = s\<lparr>jobs := jobs s1\<rparr>"
  by (auto simp: handleDrop_begin_def Let_def split: if_splits sum.splits prod.splits)

lemma idb_loadJobs_finish: "idb (loadJobs_finish r_wait r_fail ps s) = idb s"
  by (simp add: loadJobs_finish_def split: sum.splits)

lemma idb_handleDrop_settle: "idb (fst (handleDrop_settle r s)) = idb s"
  by (simp add: handleDrop_settle_def loadJobs_begin_def)

text \<open>The equations that evaluate a drop and a query at a concrete state.\<close>

lemmas eval_handleDrop =
  handleDrop_def handleDrop_begin_def handleDrop_settle_def handleDragStart_def
  loadJobs_begin_def loadJobs_finish_def findIndex_def id_is_def get_prop_def
  splice_delete1_def splice_insert_def splice_start_def Let_def

lemmas eval_getJobs =
  getJobs_def delay_def store_getAll_def paginate_def parseInt_or_def js_slice_def Let_def

text \<open>
  C8, as the code has it. The claim is that a committed reorder is written to storage
  and that a later query shows the new order. \<open>handleDrop\<close> never calls the API to write:
  the reorder call is a timer. Whenever \<open>handleDrop\<close> returns, on success or failure of
  the simulated call, the database is the one it started with, so every later query
  answers as before; and when the simulated call succeeds, the outcome is the optimistic
  list, kept in the component's state only, with the dragged job cleared.
\<close>

theorem reorder_writes_nothing:
  assumes "handleDrop r_reorder r_wait r_fail targetJob s = Inr s'"
  shows "idb s' = idb s
         \<and> (\<forall>a b ps. getJobs a b (idb s') ps = getJobs a b (idb s) ps)
         \<and> (\<not> r_reorder < 1 / 10 \<longrightarrow>
              (\<forall>s1. handleDrop_begin targetJob s = Inr (Some s1) \<longrightarrow> s' = s1\<lparr>draggedJob := JNull\<rparr>))"
proof -
  have db: "idb s' = idb s"
  proof (cases "handleDrop_begin targetJob s")
    case (Inl e)
    with assms show ?thesis by (simp add: handleDrop_def)
  next
    case (Inr r)
    show ?thesis
    proof (cases r)
      case None
      with Inr assms show ?thesis by (simp add: handleDrop_def)
    next
      case (Some s1)
      have "s1 = s\<lparr>jobs := jobs s1\<rparr>"
        using Inr Some by (simp add: handleDrop_begin_only_jobs)
      then have "idb s1 = idb (s\<lparr>jobs := jobs s1\<rparr>)" by simp
      then have "idb s1 = idb s" by simp
      with Inr Some assms show ?thesis
        by (auto simp: handleDrop_def idb_loadJobs_finish handleDrop_settle_def loadJobs_begin_def
            split: prod.splits if_splits)
    qed
  qed
  moreover have "\<not> r_reorder < 1 / 10 \<longrightarrow>
              (\<forall>s1. handleDrop_begin targetJob s = Inr (Some s1) \<longrightarrow> s' = s1\<lparr>draggedJob := JNull\<rparr>)"
    using assms by (auto simp: handleDrop_def handleDrop_settle_def)
  ultimately show ?thesis by simp
qed

text \<open>C8 as stated fails: B is dropped on A, the simulated call succeeds and the list shows
  B, A, C, but the query still returns A, B, C.\<close>

theorem successful_reorder_is_visual_only:
  "handleDrop (1 / 2) 0 (1 / 2) (JObj job_A) (handleDragStart (JObj job_B) abc_page)
     = Inr (abc_page\<lparr>jobs := [JObj job_B, JObj job_A, JObj job_C]\<rparr>)
   \<and> getJobs 0 (1 / 2) (idb (abc_page\<lparr>jobs := [JObj job_B, JObj job_A, JObj job_C]\<rparr>)) initial_filters
     = Inr \<lparr>data = [job_A, job_B, job_C],
            pagination = \<lparr>pg_page = 1, pg_pageSize = 10, total = 3, totalPages = 1\<rparr>\<rparr>"
  by (simp add: eval_handleDrop eval_getJobs)

text \<open>The same run, through the theorem.\<close>

theorem reorder_writes_nothing_witness:
  "handleDrop (1 / 2) 0 (1 / 2) (JObj job_A) (handleDragStart (JObj job_B) abc_page)
     = Inr (abc_page\<lparr>jobs := [JObj job_B, JObj job_A, JObj job_C]\<rparr>)
   \<and> idb (abc_page\<lparr>jobs := [JObj job_B, JObj job_A, JObj job_C]\<rparr>) = abc_db
   \<and> (\<forall>a b ps. getJobs a b (idb (abc_page\<lparr>jobs := [JObj job_B, JObj job_A, JObj job_C]\<rparr>)) ps
                = getJobs a b abc_db ps)"
proof -
  have run: "handleDrop (1 / 2) 0 (1 / 2) (JObj job_A) (handleDragStart (JObj job_B) abc_page)
               = Inr (abc_page\<lparr>jobs := [JObj job_B, JObj job_A, JObj job_C]\<rparr>)"
    by (simp add: eval_handleDrop)
  show ?thesis using run reorder_writes_nothing [OF run] by (simp add: handleDragStart_def)
qed

text \<open>\<open>createJob\<close> once \<open>delay\<close> has let it pass.\<close>

lemma createJob_passes:
  assumes "5 / 100 \<le> r_fail"
  shows "createJob r_wait r_fail now_id now_created db job =
           (let newJob = set_prop ''createdAt'' (JDate now_created)
                           (set_prop ''id'' (JStr (''job-'' @ string_of_int now_id)) (spread [] job))
            in (Inr newJob,
                case map_of (jobs_store db) (KStr (''job-'' @ string_of_int now_id)) of
                  None \<Rightarrow> db\<lparr>jobs_store :=
                              store_insert (KStr (''job-'' @ string_of_int now_id)) newJob (jobs_store db)\<rparr>
                | Some _ \<Rightarrow> db))"
  using assms
  by (simp add: createJob_def delay_def store_add_def extract_key_def map_of_set_prop Let_def
      split: option.splits)

text \<open>
  C9, as the code has it. The claim is that \<open>createJob\<close> rejects a payload without a
  title with \<open>ValidationError\<close>. \<open>createJob\<close> checks nothing, and the program has no such
  error; the check is in the form. \<open>CreateJobModal.handleSubmit\<close> with a title that is
  empty after trimming shows "Title is required" and returns: \<open>createJob\<close> is not
  called and the state, the database included, is otherwise unchanged. \<open>createJob\<close>
  itself, when \<open>delay\<close> lets it pass, accepts every payload: it returns the payload with
  a fresh \<open>id\<close> and \<open>createdAt\<close> (for the other names, the value the payload gives, the
  last one if a name is listed twice) and, when the id is free, stores it.
\<close>

theorem title_is_checked_by_the_form_only:
  "(trim (title fd) = [] \<longrightarrow>
      handleSubmit r_wait r_fail now_id now_created r_wait' r_fail' fd s
        = s\<lparr>alerts := alerts s @ [''Title is required'']\<rparr>)
   \<and> (5 / 100 \<le> r_fail \<longrightarrow>
        (\<exists>newJob db'. createJob r_wait r_fail now_id now_created db job = (Inr newJob, db')
           \<and> get_prop newJob ''id'' = JStr (''job-'' @ string_of_int now_id)
           \<and> get_prop newJob ''createdAt'' = JDate now_created
           \<and> (\<forall>p. p \<noteq> ''id'' \<and> p \<noteq> ''createdAt'' \<longrightarrow> map_of newJob p = map_of (rev job) p)
           \<and> (map_of (jobs_store db) (KStr (''job-'' @ string_of_int now_id)) = None \<longrightarrow>
                map_of (jobs_store db') (KStr (''job-'' @ string_of_int now_id)) = Some newJob
                \<and> store_count (jobs_store db') = store_count (jobs_store db) + 1)))"
proof (intro conjI impI)
  assume "trim (title fd) = []"
  then show "handleSubmit r_wait r_fail now_id now_created r_wait' r_fail' fd s
        = s\<lparr>alerts := alerts s @ [''Title is required'']\<rparr>"
    by (simp add: handleSubmit_def)
next
  assume ok: "5 / 100 \<le> r_fail"
  show "\<exists>newJob db'. createJob r_wait r_fail now_id now_created db job = (Inr newJob, db')
           \<and> get_prop newJob ''id'' = JStr (''job-'' @ string_of_int now_id)
           \<and> get_prop newJob ''createdAt'' = JDate now_created
           \<and> (\<forall>p. p \<noteq> ''id'' \<and> p \<noteq> ''createdAt'' \<longrightarrow> map_of newJob p = map_of (rev job) p)
           \<and> (map_of (jobs_store db) (KStr (''job-'' @ string_of_int now_id)) = None \<longrightarrow>
                map_of (jobs_store db') (KStr (''job-'' @ string_of_int now_id)) = Some newJob
                \<and> store_count (jobs_store db') = store_count (jobs_store db) + 1)"
    by (auto simp: createJob_passes [OF ok] Let_def get_prop_def map_of_set_prop map_of_spread
        map_of_store_insert store_count_def length_store_insert_fresh)
qed

text \<open>C9 as stated fails: \<open>createJob\<close> with an empty title returns the job and stores it.\<close>

theorem createJob_stores_empty_title:
  "createJob 0 (1 / 2) 1700000000000 1700000000001 empty_db
     [(''title'', JStr ''''), (''tags'', JArr []), (''status'', JStr ''active'')]
   = (Inr [(''title'', JStr ''''), (''tags'', JArr []), (''status'', JStr ''active''),
           (''id'', JStr ''job-1700000000000''), (''createdAt'', JDate 1700000000001)],
      \<lparr>jobs_store = [(KStr ''job-1700000000000'',
                       [(''title'', JStr ''''), (''tags'', JArr []), (''status'', JStr ''active''),
                        (''id'', JStr ''job-1700000000000''), (''createdAt'', JDate 1700000000001)])],
       candidates_store = [], assessments_store = []\<rparr>)"
  by (simp add: createJob_def delay_def spread_def store_add_def extract_key_def empty_db_def
      string_of_int_def digit_char_def Let_def)

text \<open>A form with a blank title, and a payload with no title at all.\<close>

theorem title_is_checked_by_the_form_only_witness:
  "handleSubmit 0 (1 / 2) 1700000000000 1700000000001 0 (1 / 2)
     \<lparr>title = ''  '', slug = '''', tags = ''a, b'', status_field = ''active''\<rparr> abc_page
     = abc_page\<lparr>alerts := [''Title is required'']\<rparr>
   \<and> (\<exists>newJob db'. createJob 0 (1 / 2) 1700000000000 1700000000001 empty_db [(''tags'', JArr [])]
                        = (Inr newJob, db')
          \<and> get_prop newJob ''id'' = JStr ''job-1700000000000''
          \<and> map_of (jobs_store db') (KStr ''job-1700000000000'') = Some newJob
          \<and> store_count (jobs_store db') = 1)"
proof -
  have j: "(5::real) / 100 \<le> 1 / 2" by simp
  have blank: "trim (title \<lparr>title = ''  '', slug = '''', tags = ''a, b'', status_field = ''active''\<rparr>) = []"
    by (simp add: trim_def isSpace_def)
  have n: "string_of_int 1700000000000 = ''1700000000000''"
    by (simp add: string_of_int_def digit_char_def)
  note t = title_is_checked_by_the_form_only
      [where fd = "\<lparr>title = ''  '', slug = '''', tags = ''a, b'', status_field = ''active''\<rparr>"
         and s = abc_page and r_wait = 0 and r_fail = "1 / 2" and now_id = 1700000000000
         and now_created = 1700000000001 and r_wait' = 0 and r_fail' = "1 / 2"
         and db = empty_db and job = "[(''tags'', JArr [])]"]
  show ?thesis using t blank j by (auto simp: n empty_db_def store_count_def)
qed

text \<open>The optimistic list for a list of three jobs: the second, or the third, dropped on
  the first.\<close>

lemma drop_second_before_first:
  assumes "jobs s = [JObj a, JObj b, JObj c]" and "draggedJob s = JObj b"
    and "get_prop a ''id'' = JStr ia" and "get_prop b ''id'' = JStr ib" and "ia \<noteq> ib"
  shows "handleDrop_begin (JObj a) s = Inr (Some (s\<lparr>jobs := [JObj b, JObj a, JObj c]\<rparr>))"
  using assms
  by (simp add: handleDrop_begin_def findIndex_def id_is_def splice_delete1_def splice_insert_def
      splice_start_def Let_def)


text \<open>
  C2, as the code has it. The claim is that a failed reorder restores the captured
  snapshot of the list. \<open>handleDrop\<close> captures no snapshot: its rollback is \<open>loadJobs()\<close>,
  a new query. For every list A, B, C (A and B with different string ids) with B dragged
  onto A: the list becomes B, A, C at once; when the simulated call then fails and the
  query of the reload returns, the list is replaced by the data of that query, the alert
  "Reorder failed, rolling back..." is shown and the dragged job is cleared. The final
  list is A, B, C again when that is what the query returns, as it is when the list was
  loaded from the same database with the same filters.
\<close>

theorem failed_reorder_reloads_the_list:
  assumes list: "jobs s = [JObj a, JObj b, JObj c]"
    and ids: "get_prop a ''id'' = JStr ia" "get_prop b ''id'' = JStr ib" "ia \<noteq> ib"
    and dragged: "draggedJob s = JObj b"
    and fails: "r_reorder < 1 / 10"
    and reload: "getJobs r_wait r_fail (idb s) (filters s) = Inr response"
  shows "handleDrop_begin (JObj a) s = Inr (Some (s\<lparr>jobs := [JObj b, JObj a, JObj c]\<rparr>))
       \<and> handleDrop r_reorder r_wait r_fail (JObj a) s
           = Inr (s\<lparr>alerts := alerts s @ [''Reorder failed, rolling back...''],
                    jobs := map JObj (data response),
                    loading := False,
                    pagination_state := Some (pagination response),
                    draggedJob := JNull\<rparr>)
       \<and> (data response = [a, b, c] \<longrightarrow>
            (\<exists>s'. handleDrop r_reorder r_wait r_fail (JObj a) s = Inr s' \<and> jobs s' = jobs s))"
proof -
  have b: "handleDrop_begin (JObj a) s = Inr (Some (s\<lparr>jobs := [JObj b, JObj a, JObj c]\<rparr>))"
    using list dragged ids by (rule drop_second_before_first)
  have h: "handleDrop r_reorder r_wait r_fail (JObj a) s
           = Inr (s\<lparr>alerts := alerts s @ [''Reorder failed, rolling back...''],
                    jobs := map JObj (data response),
                    loading := False,
                    pagination_state := Some (pagination response),
                    draggedJob := JNull\<rparr>)"
    using fails reload
    by (simp add: handleDrop_def b handleDrop_settle_def loadJobs_begin_def loadJobs_finish_def)
  show ?thesis using b h list by simp
qed

text \<open>C2 as stated fails. When the database has a fourth job that the list does not show,
  the list after the rollback is A, B, C, D, not the list before the drop. And when the
  query of the reload is itself rejected by \<open>delay\<close>, the list stays B, A, C.\<close>

theorem failed_reorder_shows_the_store_not_the_snapshot:
  "handleDrop (1 / 20) 0 (1 / 2) (JObj job_A) (handleDragStart (JObj job_B) (abc_page\<lparr>idb := abcd_db\<rparr>))
     = Inr (abc_page\<lparr>idb := abcd_db,
                      alerts := [''Reorder failed, rolling back...''],
                      jobs := [JObj job_A, JObj job_B, JObj job_C, JObj job_D],
                      pagination_state :=
                        Some \<lparr>pg_page = 1, pg_pageSize = 10, total = 4, totalPages = 1\<rparr>\<rparr>)
   \<and> handleDrop (1 / 20) 0 (1 / 100) (JObj job_A) (handleDragStart (JObj job_B) abc_page)
     = Inr (abc_page\<lparr>alerts := [''Reorder failed, rolling back...''],
                      console_errors := [(''Failed to load jobs:'', NetworkError)],
                      jobs := [JObj job_B, JObj job_A, JObj job_C]\<rparr>)"
  by (simp add: eval_handleDrop eval_getJobs)

text \<open>The list A, B, C over the database that holds the three jobs.\<close>

theorem failed_reorder_reloads_the_list_witness:
  "handleDrop_begin (JObj job_A) (handleDragStart (JObj job_B) abc_page)
     = Inr (Some (abc_page\<lparr>jobs := [JObj job_B, JObj job_A, JObj job_C], draggedJob := JObj job_B\<rparr>))
   \<and> handleDrop (1 / 20) 0 (1 / 2) (JObj job_A) (handleDragStart (JObj job_B) abc_page)
     = Inr (abc_page\<lparr>alerts := [''Reorder failed, rolling back...'']\<rparr>)"
proof -
  have r: "(1::real) / 20 < 1 / 10" by simp
  have q: "getJobs 0 (1 / 2) (idb (handleDragStart (JObj job_B) abc_page))
             (filters (handleDragStart (JObj job_B) abc_page))
           = Inr \<lparr>data = [job_A, job_B, job_C],
                  pagination = \<lparr>pg_page = 1, pg_pageSize = 10, total = 3, totalPages = 1\<rparr>\<rparr>"
    by (simp add: handleDragStart_def eval_getJobs)
  note t = failed_reorder_reloads_the_list
      [where s = "handleDragStart (JObj job_B) abc_page" and a = job_A and b = job_B and c = job_C
         and ia = "''job-1''" and ib = "''job-2''", OF _ _ _ _ _ r q]
  show ?thesis using t by (simp add: handleDragStart_def get_prop_def)
qed






section \<open>Seeding\<close>























section \<open>Queries\<close>

text \<open>\<open>includes\<close> is the substring test.\<close>

lemma startsWith_iff: "startsWith s t \<longleftrightarrow> (\<exists>q. s = t @ q)"
  unfolding startsWith_def
  by (metis append_eq_conv_conj append_take_drop_id)

lemma str_includes_iff: "str_includes s t \<longleftrightarrow> (\<exists>p q. s = p @ t @ q)"
proof (induction s)
  case Nil
  then show ?case by simp
next
  case (Cons c s)
  show ?case
  proof
    assume "str_includes (c # s) t"
    then consider "startsWith (c # s) t" | "str_includes s t" by auto
    then show "\<exists>p q. c # s = p @ t @ q"
    proof cases
      case 1
      then obtain q where "c # s = t @ q" by (auto simp: startsWith_iff)
      then have "c # s = [] @ t @ q" by simp
      then show ?thesis by blast
    next
      case 2
      then obtain p q where "s = p @ t @ q" using Cons.IH by blast
      then have "c # s = (c # p) @ t @ q" by simp
      then show ?thesis by blast
    qed
  next
    assume "\<exists>p q. c # s = p @ t @ q"
    then obtain p q where pq: "c # s = p @ t @ q" by blast
    show "str_includes (c # s) t"
    proof (cases p)
      case Nil
      with pq have "startsWith (c # s) t" by (auto simp: startsWith_iff)
      then show ?thesis by simp
    next
      case (Cons d p')
      with pq have "s = p' @ t @ q" by simp
      then have "str_includes s t" using Cons.IH by blast
      then show ?thesis by simp
    qed
  qed
qed

text \<open>A filter whose callback never throws is the plain filter.\<close>

lemma filter_js_total:
  "\<forall>x \<in> set xs. \<exists>b. f x = Inr b \<Longrightarrow> filter_js f xs = Inr (filter (\<lambda>x. f x = Inr True) xs)"
  by (induction xs) auto

text \<open>\<open>slice\<close> with indices that are not negative, and on the boundaries of a page.\<close>

lemma js_slice_nonneg:
  assumes "0 \<le> a" and "0 \<le> b"
  shows "js_slice xs a (a + b) = take (nat b) (drop (nat a) xs)"
proof (cases "a + b \<le> int (length xs)")
  case True
  with assms show ?thesis by (simp add: js_slice_def Let_def min_def)
next
  case False
  show ?thesis
  proof (cases "a \<le> int (length xs)")
    case True
    with False assms have "length (drop (nat a) xs) \<le> nat b" by simp
    then have "take (nat b) (drop (nat a) xs) = drop (nat a) xs" by simp
    moreover have "take (nat (int (length xs) - a)) (drop (nat a) xs) = drop (nat a) xs"
      using True assms by simp
    ultimately show ?thesis using True False assms by (simp add: js_slice_def Let_def min_def)
  next
    case nle: False
    with False assms show ?thesis by (simp add: js_slice_def Let_def min_def)
  qed
qed

lemma js_slice_page:
  assumes "1 \<le> pg" and "1 \<le> sz"
  shows "js_slice xs ((pg - 1) * sz) ((pg - 1) * sz + sz) = spec_slice xs (nat sz) (nat pg)"
proof -
  have nn: "0 \<le> (pg - 1) * sz" using assms by simp
  have start: "nat ((pg - 1) * sz) = (nat pg - 1) * nat sz"
    using assms by (simp add: nat_mult_distrib nat_diff_distrib)
  show ?thesis using js_slice_nonneg [OF nn, of sz xs] assms
    by (simp add: spec_slice_def start)
qed

text \<open>The pages of a list: what positions a page shows, that different pages show
  different positions, and that the pages in order make up the list.\<close>

lemma take_drop_positions:
  "take sz (drop a xs) = map (nth xs) [a ..< min (a + sz) (length xs)]"
proof (rule nth_equalityI)
  show "length (take sz (drop a xs)) = length (map (nth xs) [a ..< min (a + sz) (length xs)])"
    by (auto simp: min_def)
next
  fix i assume i: "i < length (take sz (drop a xs))"
  then have "i < sz" and "a + i < length xs" by auto
  then have "a + i < min (a + sz) (length xs)" by simp
  then have "[a ..< min (a + sz) (length xs)] ! i = a + i"
    by (intro nth_upt) simp
  moreover have "i < length [a ..< min (a + sz) (length xs)]"
    using \<open>a + i < min (a + sz) (length xs)\<close> by (simp add: min_def split: if_splits)
  ultimately have "map (nth xs) [a ..< min (a + sz) (length xs)] ! i = xs ! (a + i)"
    by (simp only: nth_map)
  moreover have "take sz (drop a xs) ! i = xs ! (a + i)"
    using \<open>i < sz\<close> \<open>a + i < length xs\<close> by simp
  ultimately show "take sz (drop a xs) ! i = map (nth xs) [a ..< min (a + sz) (length xs)] ! i"
    by simp
qed

lemma spec_slice_positions:
  assumes "1 \<le> p"
  shows "spec_slice xs sz p = map (nth xs) (page_positions (length xs) sz p)"
proof -
  have e: "p * sz = (p - 1) * sz + sz"
    using assms by (metis add.commute le_add_diff_inverse mult_Suc plus_1_eq_Suc)
  show ?thesis
    unfolding spec_slice_def page_positions_def e by (rule take_drop_positions)
qed

lemma page_positions_disjoint:
  assumes "1 \<le> p" and "p < q"
  shows "set (page_positions n sz p) \<inter> set (page_positions n sz q) = {}"
proof -
  have "p * sz \<le> (q - 1) * sz" using assms by (intro mult_le_mono1) simp
  then show ?thesis by (auto simp: page_positions_def)
qed

lemma concat_pages_from_0:
  "concat (map (\<lambda>p. take sz (drop (p * sz) xs)) [0..<n]) = take (n * sz) xs"
proof (induction n)
  case 0
  then show ?case by simp
next
  case (Suc n)
  have "take (sz + n * sz) xs = take (n * sz) xs @ take sz (drop (n * sz) xs)"
    using take_add [of "n * sz" sz xs] by (simp add: add.commute)
  then show ?case using Suc by simp
qed

lemma concat_spec_slices:
  assumes "length xs \<le> n * sz"
  shows "concat (map (spec_slice xs sz) [1..<Suc n]) = xs"
proof -
  have "[1..<Suc n] = map Suc [0..<n]" by (simp add: map_Suc_upt)
  then have "concat (map (spec_slice xs sz) [1..<Suc n])
             = concat (map (\<lambda>p. take sz (drop (p * sz) xs)) [0..<n])"
    by (simp add: spec_slice_def comp_def)
  with assms show ?thesis by (simp add: concat_pages_from_0)
qed

lemma pages_cover:
  assumes "1 \<le> sz"
  shows "n \<le> \<lceil>real_of_int n / real_of_int sz\<rceil> * sz"
proof -
  have c: "\<lceil>real_of_int n / real_of_int sz\<rceil> = - (- n div sz)"
    by (rule ceiling_divide_eq_div)
  have "(- n) div sz * sz + (- n) mod sz = - n" by simp
  moreover have "0 \<le> (- n) mod sz" using assms by simp
  ultimately have "(- n) div sz * sz \<le> - n" by linarith
  then show ?thesis by (simp add: c)
qed

lemma spec_slice_beyond:
  assumes "length xs \<le> (p - 1) * sz"
  shows "spec_slice xs sz p = []"
  using assms by (simp add: spec_slice_def)

text \<open>The two filter stages of a query select what the specification says.\<close>

lemma strict_eq_JStr: "strict_eq v (JStr st) \<longleftrightarrow> v = JStr st"
  by (cases v) auto

lemma job_matches_iff:
  "job_matches s job = Inr True \<longleftrightarrow>
   (\<exists>t p q. get_prop job ''title'' = JStr t \<and> toLowerCase t = p @ toLowerCase s @ q)"
  by (cases "get_prop job ''title''") (auto simp: job_matches_def str_includes_iff)

lemma candidate_matches_iff:
  "candidate_matches (toLowerCase s) c = Inr True \<longleftrightarrow>
   (\<exists>n. get_prop c ''name'' = JStr n
      \<and> ((\<exists>p q. toLowerCase n = p @ toLowerCase s @ q)
         \<or> (\<exists>e p q. get_prop c ''email'' = JStr e \<and> toLowerCase e = p @ toLowerCase s @ q)))"
proof (cases "get_prop c ''name''")
  case (JStr n)
  show ?thesis
  proof (cases "str_includes (toLowerCase n) (toLowerCase s)")
    case True
    with JStr show ?thesis by (auto simp: candidate_matches_def str_includes_iff)
  next
    case False
    with JStr show ?thesis
      by (cases "get_prop c ''email''") (auto simp: candidate_matches_def str_includes_iff)
  qed
qed (auto simp: candidate_matches_def)

lemma jobs_search_stage:
  assumes "\<forall>job \<in> set js. \<exists>t. get_prop job ''title'' = JStr t"
  shows "filter_js (job_matches s) js = Inr (filter (\<lambda>job. job_matches s job = Inr True) js)"
proof (rule filter_js_total)
  show "\<forall>x \<in> set js. \<exists>b. job_matches s x = Inr b"
    using assms by (auto simp: job_matches_def)
qed

lemma candidates_search_stage:
  assumes "\<forall>c \<in> set cs. (\<exists>n. get_prop c ''name'' = JStr n) \<and> (\<exists>e. get_prop c ''email'' = JStr e)"
  shows "filter_js (candidate_matches s) cs
         = Inr (filter (\<lambda>c. candidate_matches s c = Inr True) cs)"
proof (rule filter_js_total)
  show "\<forall>x \<in> set cs. \<exists>b. candidate_matches s x = Inr b"
  proof
    fix x assume "x \<in> set cs"
    with assms obtain n e where "get_prop x ''name'' = JStr n" "get_prop x ''email'' = JStr e"
      by blast
    then show "\<exists>b. candidate_matches s x = Inr b" by (auto simp: candidate_matches_def)
  qed
qed

text \<open>The fields of a page result.\<close>

lemma pages_nonneg:
  assumes "1 \<le> sz"
  shows "0 \<le> \<lceil>real_of_int (int n) / real_of_int sz\<rceil>"
proof -
  have "0 \<le> real_of_int (int n) / real_of_int sz" using assms by simp
  then have "- 1 < real_of_int (int n) / real_of_int sz" by linarith
  then show ?thesis by (simp only: zero_le_ceiling)
qed

lemma paginate_fields:
  "pg_page (pagination (paginate xs ps d)) = parseInt_or (page ps) 1"
  "pg_pageSize (pagination (paginate xs ps d)) = parseInt_or (pageSize ps) d"
  "total (pagination (paginate xs ps d)) = int (length xs)"
  "totalPages (pagination (paginate xs ps d))
     = \<lceil>real_of_int (int (length xs)) / real_of_int (parseInt_or (pageSize ps) d)\<rceil>"
  "data (paginate xs ps d)
     = js_slice xs ((parseInt_or (page ps) 1 - 1) * parseInt_or (pageSize ps) d)
         ((parseInt_or (page ps) 1 - 1) * parseInt_or (pageSize ps) d + parseInt_or (pageSize ps) d)"
  by (simp_all add: paginate_def Let_def)

lemma paginate_data:
  assumes "1 \<le> parseInt_or (page ps) 1" and "1 \<le> parseInt_or (pageSize ps) d"
  shows "data (paginate xs ps d)
         = spec_slice xs (nat (parseInt_or (pageSize ps) d)) (nat (parseInt_or (page ps) 1))"
  using assms by (simp add: paginate_fields js_slice_page)

lemma paginate_beyond:
  assumes "1 \<le> parseInt_or (pageSize ps) d"
    and "totalPages (pagination (paginate xs ps d)) < parseInt_or (page ps) 1"
  shows "data (paginate xs ps d) = []"
proof -
  let ?P = "parseInt_or (pageSize ps) d" and ?pg = "parseInt_or (page ps) 1"
  let ?T = "\<lceil>real_of_int (int (length xs)) / real_of_int ?P\<rceil>"
  have T: "?T < ?pg" using assms(2) by (simp add: paginate_fields)
  have "0 \<le> ?T" using assms(1) by (rule pages_nonneg)
  with T have pg: "1 \<le> ?pg" by linarith
  have "int (length xs) \<le> ?T * ?P" using assms(1) by (rule pages_cover)
  also have "\<dots> \<le> (?pg - 1) * ?P" using T assms(1) by (intro mult_right_mono) simp_all
  finally have "length xs \<le> nat ((?pg - 1) * ?P)" by simp
  also have "nat ((?pg - 1) * ?P) = (nat ?pg - 1) * nat ?P"
    using pg assms(1) by (simp add: nat_mult_distrib nat_diff_distrib)
  finally have "spec_slice xs (nat ?P) (nat ?pg) = []" by (rule spec_slice_beyond)
  with pg assms(1) show ?thesis by (simp add: paginate_data)
qed

lemma paginate_page:
  assumes "1 \<le> p" and "1 \<le> parseInt_or (pageSize ps) d"
  shows "data (paginate xs (ps\<lparr>page := Some (int p)\<rparr>) d)
         = spec_slice xs (nat (parseInt_or (pageSize ps) d)) p"
proof -
  have "parseInt_or (page (ps\<lparr>page := Some (int p)\<rparr>)) 1 = int p"
    using assms(1) by (simp add: parseInt_or_def)
  moreover have "parseInt_or (pageSize (ps\<lparr>page := Some (int p)\<rparr>)) d = parseInt_or (pageSize ps) d"
    by simp
  ultimately show ?thesis
    using assms paginate_data [of "ps\<lparr>page := Some (int p)\<rparr>" d xs] by simp
qed

lemma paginate_concat:
  assumes "1 \<le> parseInt_or (pageSize ps) d"
  shows "concat (map (\<lambda>p. data (paginate xs (ps\<lparr>page := Some (int p)\<rparr>) d))
                    [1..<Suc (nat (totalPages (pagination (paginate xs ps d))))]) = xs"
proof -
  let ?P = "parseInt_or (pageSize ps) d"
  let ?T = "totalPages (pagination (paginate xs ps d))"
  have T: "?T = \<lceil>real_of_int (int (length xs)) / real_of_int ?P\<rceil>"
    by (rule paginate_fields)
  have "int (length xs) \<le> ?T * ?P"
    unfolding T using assms by (rule pages_cover)
  moreover have "0 \<le> ?T"
    unfolding T using assms by (rule pages_nonneg)
  ultimately have "int (length xs) \<le> int (nat ?T * nat ?P)"
    using assms by (simp add: nat_mult_distrib [symmetric])
  then have cover: "length xs \<le> nat ?T * nat ?P" by linarith
  have eq: "map (\<lambda>p. data (paginate xs (ps\<lparr>page := Some (int p)\<rparr>) d)) [1..<Suc (nat ?T)]
        = map (spec_slice xs (nat ?P)) [1..<Suc (nat ?T)]"
    using assms by (intro map_cong refl paginate_page) auto
  show ?thesis unfolding eq by (rule concat_spec_slices [OF cover])
qed

text \<open>A query that \<open>delay\<close> lets pass and whose search does not throw.\<close>

lemma getJobs_passes:
  assumes pass: "5 / 100 \<le> r_fail"
    and titles: "(\<exists>s. search ps = Some s \<and> s \<noteq> []) \<longrightarrow>
                 (\<forall>job \<in> set (store_getAll (jobs_store db)). \<exists>t. get_prop job ''title'' = JStr t)"
  shows "getJobs r_wait r_fail db ps
         = Inr (paginate (filter (selects_job ps) (store_getAll (jobs_store db))) ps 10)"
proof -
  let ?js = "store_getAll (jobs_store db)"
  let ?A = "\<lambda>job. case search ps of None \<Rightarrow> True | Some s \<Rightarrow> s = [] \<or> job_matches s job = Inr True"
  let ?B = "\<lambda>job. case status ps of None \<Rightarrow> True | Some st \<Rightarrow> st = [] \<or> get_prop job ''status'' = JStr st"
  have first: "(case search ps of
                  None \<Rightarrow> Inr ?js
                | Some s \<Rightarrow> if s = [] then Inr ?js else filter_js (job_matches s) ?js)
               = Inr (filter ?A ?js)"
  proof (cases "search ps")
    case None
    then show ?thesis by simp
  next
    case (Some s)
    show ?thesis
    proof (cases "s = []")
      case True
      with Some show ?thesis by simp
    next
      case False
      with Some titles have "\<forall>job \<in> set ?js. \<exists>t. get_prop job ''title'' = JStr t" by blast
      then have "filter_js (job_matches s) ?js = Inr (filter (\<lambda>job. job_matches s job = Inr True) ?js)"
        by (rule jobs_search_stage)
      with Some False show ?thesis by simp
    qed
  qed
  have second: "(case status ps of
                   None \<Rightarrow> filter ?A ?js
                 | Some st \<Rightarrow>
                     if st = [] then filter ?A ?js
                     else filter (\<lambda>job. strict_eq (get_prop job ''status'') (JStr st)) (filter ?A ?js))
                = filter (\<lambda>job. ?A job \<and> ?B job) ?js"
    by (cases "status ps") (auto simp: strict_eq_JStr)
  have sel: "(\<lambda>job. ?A job \<and> ?B job) = selects_job ps"
    by (rule ext) (simp add: selects_job_def job_matches_iff split: option.splits)
  show ?thesis
    using pass by (simp add: getJobs_def delay_def first second sel Let_def)
qed

lemma getCandidates_passes:
  assumes pass: "5 / 100 \<le> r_fail"
    and strings: "(\<exists>s. search ps = Some s \<and> s \<noteq> []) \<longrightarrow>
                  (\<forall>c \<in> set (store_getAll (candidates_store db)).
                      (\<exists>n. get_prop c ''name'' = JStr n) \<and> (\<exists>e. get_prop c ''email'' = JStr e))"
  shows "getCandidates r_wait r_fail db ps
         = Inr (paginate (filter (selects_candidate ps) (store_getAll (candidates_store db))) ps 50)"
proof -
  let ?cs = "store_getAll (candidates_store db)"
  let ?A = "\<lambda>c. case search ps of
                   None \<Rightarrow> True
                 | Some s \<Rightarrow> s = [] \<or> candidate_matches (toLowerCase s) c = Inr True"
  let ?B = "\<lambda>c. case stage ps of None \<Rightarrow> True | Some st \<Rightarrow> st = [] \<or> get_prop c ''stage'' = JStr st"
  have first: "(case search ps of
                  None \<Rightarrow> Inr ?cs
                | Some s \<Rightarrow> if s = [] then Inr ?cs
                            else filter_js (candidate_matches (toLowerCase s)) ?cs)
               = Inr (filter ?A ?cs)"
  proof (cases "search ps")
    case None
    then show ?thesis by simp
  next
    case (Some s)
    show ?thesis
    proof (cases "s = []")
      case True
      with Some show ?thesis by simp
    next
      case False
      with Some strings have "\<forall>c \<in> set ?cs. (\<exists>n. get_prop c ''name'' = JStr n)
                                              \<and> (\<exists>e. get_prop c ''email'' = JStr e)" by blast
      then have "filter_js (candidate_matches (toLowerCase s)) ?cs
                 = Inr (filter (\<lambda>c. candidate_matches (toLowerCase s) c = Inr True) ?cs)"
        by (rule candidates_search_stage)
      with Some False show ?thesis by simp
    qed
  qed
  have second: "(case stage ps of
                   None \<Rightarrow> filter ?A ?cs
                 | Some st \<Rightarrow>
                     if st = [] then filter ?A ?cs
                     else filter (\<lambda>c. strict_eq (get_prop c ''stage'') (JStr st)) (filter ?A ?cs))
                = filter (\<lambda>c. ?A c \<and> ?B c) ?cs"
    by (cases "stage ps") (auto simp: strict_eq_JStr)
  have sel: "(\<lambda>c. ?A c \<and> ?B c) = selects_candidate ps"
    by (rule ext) (simp add: selects_candidate_def candidate_matches_iff split: option.splits)
  show ?thesis
    using pass by (simp add: getCandidates_def delay_def first second sel Let_def)
qed

text \<open>
  C1, as the code has it. The claim holds but for the sort: \<open>getJobs\<close> and
  \<open>getCandidates\<close> sort nothing, and the records stay in the order in which \<open>getAll\<close>
  returns them, the order of the store, which is ascending primary key. When \<open>delay\<close>
  lets the call pass, and, if there is a search term, the searched properties of all
  records are strings, the result is the page of the records that the parameters select
  (title, or name or email, containing the term with case ignored; status, or stage,
  equal to the one asked for), in store order. The parameters \<open>page\<close> and \<open>pageSize\<close>
  are absent or integers below \<open>10^21\<close> in magnitude, which \<open>parseInt\<close> reads back as they
  are, and the list of records is an array, of fewer than \<open>2^32\<close> elements. For every
  such list: \<open>page\<close> is the parameter or 1, \<open>pageSize\<close> the parameter or the default (10
  for jobs, 50 for candidates), absent and 0 giving the default; \<open>total\<close> is the length
  of the list and \<open>totalPages\<close> the ceiling of \<open>total / pageSize\<close>. For a page size of at
  least 1: a page of at least 1 is the slice \<open>[(page-1)*pageSize, page*pageSize)\<close>; a
  page beyond \<open>totalPages\<close> is empty; the pages 1 to \<open>totalPages\<close> concatenate to the
  list; and two different pages show disjoint positions of it.
\<close>

theorem queries_page_the_filtered_store:
  assumes pass: "5 / 100 \<le> r_fail"
    and decimal: "case page ps of None \<Rightarrow> True | Some n \<Rightarrow> \<bar>n\<bar> < 10 ^ 21"
                 "case pageSize ps of None \<Rightarrow> True | Some n \<Rightarrow> \<bar>n\<bar> < 10 ^ 21"
    and array: "length xs < 2 ^ 32"
  shows "(((\<exists>s. search ps = Some s \<and> s \<noteq> []) \<longrightarrow>
            (\<forall>job \<in> set (store_getAll (jobs_store db)). \<exists>t. get_prop job ''title'' = JStr t))
          \<longrightarrow> getJobs r_wait r_fail db ps
                = Inr (paginate (filter (selects_job ps) (store_getAll (jobs_store db))) ps 10))
       \<and> (((\<exists>s. search ps = Some s \<and> s \<noteq> []) \<longrightarrow>
            (\<forall>c \<in> set (store_getAll (candidates_store db)).
                (\<exists>n. get_prop c ''name'' = JStr n) \<and> (\<exists>e. get_prop c ''email'' = JStr e)))
          \<longrightarrow> getCandidates r_wait r_fail db ps
                = Inr (paginate (filter (selects_candidate ps) (store_getAll (candidates_store db))) ps 50))
       \<and> pg_page (pagination (paginate xs ps d))
           = (case page ps of None \<Rightarrow> 1 | Some n \<Rightarrow> if n = 0 then 1 else n)
       \<and> pg_pageSize (pagination (paginate xs ps d))
           = (case pageSize ps of None \<Rightarrow> d | Some n \<Rightarrow> if n = 0 then d else n)
       \<and> total (pagination (paginate xs ps d)) = int (length xs)
       \<and> totalPages (pagination (paginate xs ps d))
           = \<lceil>real (length xs) / real_of_int (pg_pageSize (pagination (paginate xs ps d)))\<rceil>
       \<and> (1 \<le> pg_pageSize (pagination (paginate xs ps d)) \<longrightarrow>
            (1 \<le> pg_page (pagination (paginate xs ps d)) \<longrightarrow>
               data (paginate xs ps d)
                 = spec_slice xs (nat (pg_pageSize (pagination (paginate xs ps d))))
                     (nat (pg_page (pagination (paginate xs ps d)))))
          \<and> (totalPages (pagination (paginate xs ps d)) < pg_page (pagination (paginate xs ps d)) \<longrightarrow>
               data (paginate xs ps d) = [])
          \<and> concat (map (\<lambda>p. data (paginate xs (ps\<lparr>page := Some (int p)\<rparr>) d))
                       [1..<Suc (nat (totalPages (pagination (paginate xs ps d))))]) = xs
          \<and> (\<forall>p q. 1 \<le> p \<and> p < q \<and> p < 10 ^ 21 \<longrightarrow>
                 data (paginate xs (ps\<lparr>page := Some (int p)\<rparr>) d)
                   = map (nth xs)
                       (page_positions (length xs) (nat (pg_pageSize (pagination (paginate xs ps d)))) p)
               \<and> set (page_positions (length xs) (nat (pg_pageSize (pagination (paginate xs ps d)))) p)
                   \<inter> set (page_positions (length xs) (nat (pg_pageSize (pagination (paginate xs ps d)))) q)
                   = {}))"
proof -
  let ?P = "parseInt_or (pageSize ps) d" and ?pg = "parseInt_or (page ps) 1"
  have f1: "pg_page (pagination (paginate xs ps d)) = ?pg"
    and f2: "pg_pageSize (pagination (paginate xs ps d)) = ?P"
    by (rule paginate_fields)+
  have jobs: "((\<exists>s. search ps = Some s \<and> s \<noteq> []) \<longrightarrow>
            (\<forall>job \<in> set (store_getAll (jobs_store db)). \<exists>t. get_prop job ''title'' = JStr t))
          \<longrightarrow> getJobs r_wait r_fail db ps
                = Inr (paginate (filter (selects_job ps) (store_getAll (jobs_store db))) ps 10)"
    using getJobs_passes [OF pass] by blast
  have cands: "((\<exists>s. search ps = Some s \<and> s \<noteq> []) \<longrightarrow>
            (\<forall>c \<in> set (store_getAll (candidates_store db)).
                (\<exists>n. get_prop c ''name'' = JStr n) \<and> (\<exists>e. get_prop c ''email'' = JStr e)))
          \<longrightarrow> getCandidates r_wait r_fail db ps
                = Inr (paginate (filter (selects_candidate ps) (store_getAll (candidates_store db))) ps 50)"
    using getCandidates_passes [OF pass] by blast
  have page: "?pg = (case page ps of None \<Rightarrow> 1 | Some n \<Rightarrow> if n = 0 then 1 else n)"
    and size: "?P = (case pageSize ps of None \<Rightarrow> d | Some n \<Rightarrow> if n = 0 then d else n)"
    by (simp_all add: parseInt_or_def)
  have tot: "total (pagination (paginate xs ps d)) = int (length xs)"
    by (rule paginate_fields)
  have pages: "totalPages (pagination (paginate xs ps d)) = \<lceil>real (length xs) / real_of_int ?P\<rceil>"
    by (simp add: paginate_fields)
  have slices: "1 \<le> ?P \<longrightarrow>
            (1 \<le> ?pg \<longrightarrow> data (paginate xs ps d) = spec_slice xs (nat ?P) (nat ?pg))
          \<and> (totalPages (pagination (paginate xs ps d)) < ?pg \<longrightarrow> data (paginate xs ps d) = [])
          \<and> concat (map (\<lambda>p. data (paginate xs (ps\<lparr>page := Some (int p)\<rparr>) d))
                       [1..<Suc (nat (totalPages (pagination (paginate xs ps d))))]) = xs
          \<and> (\<forall>p q. 1 \<le> p \<and> p < q \<and> p < 10 ^ 21 \<longrightarrow>
                 data (paginate xs (ps\<lparr>page := Some (int p)\<rparr>) d)
                   = map (nth xs) (page_positions (length xs) (nat ?P) p)
               \<and> set (page_positions (length xs) (nat ?P) p)
                   \<inter> set (page_positions (length xs) (nat ?P) q) = {})"
  proof (intro impI conjI allI)
    assume P: "1 \<le> ?P"
    show "concat (map (\<lambda>p. data (paginate xs (ps\<lparr>page := Some (int p)\<rparr>) d))
                       [1..<Suc (nat (totalPages (pagination (paginate xs ps d))))]) = xs"
      using P by (rule paginate_concat)
    { assume "1 \<le> ?pg"
      then show "data (paginate xs ps d) = spec_slice xs (nat ?P) (nat ?pg)"
        using P by (rule paginate_data) }
    { assume "totalPages (pagination (paginate xs ps d)) < ?pg"
      with P show "data (paginate xs ps d) = []" by (rule paginate_beyond) }
    { fix p q :: nat assume pq: "1 \<le> p \<and> p < q \<and> p < 10 ^ 21"
      then have "data (paginate xs (ps\<lparr>page := Some (int p)\<rparr>) d) = spec_slice xs (nat ?P) p"
        using P by (intro paginate_page) simp_all
      then show "data (paginate xs (ps\<lparr>page := Some (int p)\<rparr>) d)
                   = map (nth xs) (page_positions (length xs) (nat ?P) p)"
        using pq by (simp add: spec_slice_positions)
      show "set (page_positions (length xs) (nat ?P) p)
              \<inter> set (page_positions (length xs) (nat ?P) q) = {}"
        using pq by (intro page_positions_disjoint) simp_all }
  qed
  show ?thesis
    unfolding f1 f2 using jobs cands page size tot pages slices by blast
qed

text \<open>The selection, in the form that evaluates.\<close>

lemma selects_job_eval:
  "selects_job ps job \<longleftrightarrow>
     (case search ps of None \<Rightarrow> True | Some s \<Rightarrow> s = [] \<or> job_matches s job = Inr True)
     \<and> (case status ps of None \<Rightarrow> True | Some st \<Rightarrow> st = [] \<or> get_prop job ''status'' = JStr st)"
  by (simp add: selects_job_def job_matches_iff split: option.splits)

lemma selects_candidate_eval:
  "selects_candidate ps c \<longleftrightarrow>
     (case search ps of
        None \<Rightarrow> True
      | Some s \<Rightarrow> s = [] \<or> candidate_matches (toLowerCase s) c = Inr True)
     \<and> (case stage ps of None \<Rightarrow> True | Some st \<Rightarrow> st = [] \<or> get_prop c ''stage'' = JStr st)"
  by (simp add: selects_candidate_def candidate_matches_iff split: option.splits)

text \<open>C1 as stated fails on the sort by creation order. A store holds the seeded jobs
  \<open>job-17\<close> and \<open>job-18\<close>; a job is created now and gets the id \<open>job-1700000000000\<close>;
  the query lists it between the two older jobs, by its key.\<close>

theorem newest_job_is_listed_between_older_ones:
  "map (\<lambda>job. (get_prop job ''id'', get_prop job ''createdAt''))
     (case getJobs 0 (1 / 2)
             (snd (createJob 0 (1 / 2) 1700000000000 1700000000000
                     \<lparr>jobs_store =
                        [(KStr ''job-17'', [(''id'', JStr ''job-17''), (''title'', JStr ''Backend Engineer 4''),
                                            (''order'', JNum 17), (''createdAt'', JDate 1698704000016)]),
                         (KStr ''job-18'', [(''id'', JStr ''job-18''), (''title'', JStr ''Full Stack Developer 4''),
                                            (''order'', JNum 18), (''createdAt'', JDate 1698704000017)])],
                      candidates_store = [], assessments_store = []\<rparr>
                     [(''title'', JStr ''Designer'')]))
             initial_filters of
        Inr r \<Rightarrow> data r
      | Inl e \<Rightarrow> [])
   = [(JStr ''job-17'', JDate 1698704000016),
      (JStr ''job-1700000000000'', JDate 1700000000000),
      (JStr ''job-18'', JDate 1698704000017)]"
  by (simp add: createJob_def store_add_def extract_key_def spread_def string_of_int_def
      digit_char_def eval_getJobs get_prop_def)

text \<open>A search on four jobs, page 2 of size 2; a search and a stage on two candidates,
  with the default size; a page beyond the last; and the two pages of the three selected
  jobs.\<close>

theorem queries_page_the_filtered_store_witness:
  "getJobs 0 (1 / 2) abcd_db
     \<lparr>search = Some ''ER'', status = None, stage = None, page = Some 2, pageSize = Some 2\<rparr>
     = Inr \<lparr>data = [job_D],
            pagination = \<lparr>pg_page = 2, pg_pageSize = 2, total = 3, totalPages = 2\<rparr>\<rparr>
   \<and> getCandidates 0 (1 / 2)
       \<lparr>jobs_store = [],
        candidates_store =
          [(KStr ''candidate-1'', [(''id'', JStr ''candidate-1''), (''name'', JStr ''Candidate 1''),
                                   (''email'', JStr ''candidate1@email.com''), (''stage'', JStr ''applied'')]),
           (KStr ''candidate-2'', [(''id'', JStr ''candidate-2''), (''name'', JStr ''Candidate 2''),
                                   (''email'', JStr ''candidate2@email.com''), (''stage'', JStr ''tech'')])],
        assessments_store = []\<rparr>
       \<lparr>search = Some ''E2@'', status = None, stage = Some ''tech'', page = None, pageSize = None\<rparr>
     = Inr \<lparr>data = [[(''id'', JStr ''candidate-2''), (''name'', JStr ''Candidate 2''),
                     (''email'', JStr ''candidate2@email.com''), (''stage'', JStr ''tech'')]],
            pagination = \<lparr>pg_page = 1, pg_pageSize = 50, total = 1, totalPages = 1\<rparr>\<rparr>
   \<and> data (paginate [job_B, job_C, job_D]
             \<lparr>search = Some ''ER'', status = None, stage = None, page = Some 3, pageSize = Some 2\<rparr> 10)
     = []
   \<and> concat (map (\<lambda>p. data (paginate [job_B, job_C, job_D]
                            \<lparr>search = Some ''ER'', status = None, stage = None,
                             page = Some (int p), pageSize = Some 2\<rparr> 10))
               [1..<3])
     = [job_B, job_C, job_D]"
proof -
  have j: "(5::real) / 100 \<le> 1 / 2" by simp
  have p2: "case page \<lparr>search = Some ''ER'', status = None, stage = None, page = Some 2, pageSize = Some 2\<rparr>
              of None \<Rightarrow> True | Some n \<Rightarrow> \<bar>n\<bar> < 10 ^ 21"
    and s2: "case pageSize \<lparr>search = Some ''ER'', status = None, stage = None, page = Some 2, pageSize = Some 2\<rparr>
              of None \<Rightarrow> True | Some n \<Rightarrow> \<bar>n\<bar> < 10 ^ 21"
    and p3: "case page \<lparr>search = Some ''ER'', status = None, stage = None, page = Some 3, pageSize = Some 2\<rparr>
              of None \<Rightarrow> True | Some n \<Rightarrow> \<bar>n\<bar> < 10 ^ 21"
    and s3: "case pageSize \<lparr>search = Some ''ER'', status = None, stage = None, page = Some 3, pageSize = Some 2\<rparr>
              of None \<Rightarrow> True | Some n \<Rightarrow> \<bar>n\<bar> < 10 ^ 21"
    and p0: "case page \<lparr>search = Some ''E2@'', status = None, stage = Some ''tech'', page = None, pageSize = None\<rparr>
              of None \<Rightarrow> True | Some n \<Rightarrow> \<bar>n\<bar> < 10 ^ 21"
    and s0: "case pageSize \<lparr>search = Some ''E2@'', status = None, stage = Some ''tech'', page = None, pageSize = None\<rparr>
              of None \<Rightarrow> True | Some n \<Rightarrow> \<bar>n\<bar> < 10 ^ 21"
    by simp_all
  have len: "length [job_B, job_C, job_D] < 2 ^ 32" by simp
  note a = queries_page_the_filtered_store
      [OF j p2 s2 len, where r_wait = 0 and db = abcd_db and d = 10]
  note b = queries_page_the_filtered_store
      [OF j p0 s0 len, where r_wait = 0 and d = 10
         and db = "\<lparr>jobs_store = [],
        candidates_store =
          [(KStr ''candidate-1'', [(''id'', JStr ''candidate-1''), (''name'', JStr ''Candidate 1''),
                                   (''email'', JStr ''candidate1@email.com''), (''stage'', JStr ''applied'')]),
           (KStr ''candidate-2'', [(''id'', JStr ''candidate-2''), (''name'', JStr ''Candidate 2''),
                                   (''email'', JStr ''candidate2@email.com''), (''stage'', JStr ''tech'')])],
        assessments_store = []\<rparr>"]
  note c = queries_page_the_filtered_store
      [OF j p3 s3 len, where r_wait = 0 and db = abcd_db and d = 10]
  have jobs: "getJobs 0 (1 / 2) abcd_db
     \<lparr>search = Some ''ER'', status = None, stage = None, page = Some 2, pageSize = Some 2\<rparr>
     = Inr \<lparr>data = [job_D],
            pagination = \<lparr>pg_page = 2, pg_pageSize = 2, total = 3, totalPages = 2\<rparr>\<rparr>"
    using a [THEN conjunct1]
    by (simp add: store_getAll_def get_prop_def selects_job_eval job_matches_def toLowerCase_def
        toLowerCase_char_def char_of_nat_bits startsWith_def paginate_def parseInt_or_def
        js_slice_def Let_def)
  have cands: "getCandidates 0 (1 / 2)
       \<lparr>jobs_store = [],
        candidates_store =
          [(KStr ''candidate-1'', [(''id'', JStr ''candidate-1''), (''name'', JStr ''Candidate 1''),
                                   (''email'', JStr ''candidate1@email.com''), (''stage'', JStr ''applied'')]),
           (KStr ''candidate-2'', [(''id'', JStr ''candidate-2''), (''name'', JStr ''Candidate 2''),
                                   (''email'', JStr ''candidate2@email.com''), (''stage'', JStr ''tech'')])],
        assessments_store = []\<rparr>
       \<lparr>search = Some ''E2@'', status = None, stage = Some ''tech'', page = None, pageSize = None\<rparr>
     = Inr \<lparr>data = [[(''id'', JStr ''candidate-2''), (''name'', JStr ''Candidate 2''),
                     (''email'', JStr ''candidate2@email.com''), (''stage'', JStr ''tech'')]],
            pagination = \<lparr>pg_page = 1, pg_pageSize = 50, total = 1, totalPages = 1\<rparr>\<rparr>"
    using b [THEN conjunct2, THEN conjunct1] ceiling_divide_eq_div [of 1 50]
    by (simp add: store_getAll_def get_prop_def selects_candidate_eval candidate_matches_def
        toLowerCase_def toLowerCase_char_def char_of_nat_bits startsWith_def paginate_def
        parseInt_or_def js_slice_def Let_def)
  let ?p3 = "\<lparr>search = Some ''ER'', status = None, stage = None, page = Some 3, pageSize = Some 2\<rparr>"
  from c [THEN conjunct2, THEN conjunct2]
  have "1 \<le> pg_pageSize (pagination (paginate [job_B, job_C, job_D] ?p3 10)) \<longrightarrow>
      totalPages (pagination (paginate [job_B, job_C, job_D] ?p3 10))
        < pg_page (pagination (paginate [job_B, job_C, job_D] ?p3 10)) \<longrightarrow>
      data (paginate [job_B, job_C, job_D] ?p3 10) = []"
    by blast
  moreover have "pg_pageSize (pagination (paginate [job_B, job_C, job_D] ?p3 10)) = 2"
    "pg_page (pagination (paginate [job_B, job_C, job_D] ?p3 10)) = 3"
    "totalPages (pagination (paginate [job_B, job_C, job_D] ?p3 10)) = 2"
    by (simp_all add: paginate_def parseInt_or_def Let_def)
  ultimately have beyond: "data (paginate [job_B, job_C, job_D] ?p3 10) = []" by simp
  let ?p2 = "\<lparr>search = Some ''ER'', status = None, stage = None, page = Some 2, pageSize = Some 2\<rparr>"
  from a [THEN conjunct2, THEN conjunct2]
  have "1 \<le> pg_pageSize (pagination (paginate [job_B, job_C, job_D] ?p2 10)) \<longrightarrow>
      concat (map (\<lambda>p. data (paginate [job_B, job_C, job_D] (?p2\<lparr>page := Some (int p)\<rparr>) 10))
                [1..<Suc (nat (totalPages (pagination (paginate [job_B, job_C, job_D] ?p2 10))))])
        = [job_B, job_C, job_D]"
    by blast
  moreover have "pg_pageSize (pagination (paginate [job_B, job_C, job_D] ?p2 10)) = 2"
    "totalPages (pagination (paginate [job_B, job_C, job_D] ?p2 10)) = 2"
    by (simp_all add: paginate_def parseInt_or_def Let_def)
  moreover have "Suc (nat 2) = 3" by simp
  ultimately have parts: "concat (map (\<lambda>p. data (paginate [job_B, job_C, job_D]
                            \<lparr>search = Some ''ER'', status = None, stage = None,
                             page = Some (int p), pageSize = Some 2\<rparr> 10))
               [1..<3])
     = [job_B, job_C, job_D]"
    by (simp del: upt_Suc)
  from jobs cands beyond parts show ?thesis by blast
qed

end
